theory Spec2Isabelle
  imports Main "HOL-Library.AList"
begin

section \<open>Python text helpers\<close>

text \<open>
  Text is a list of characters. \<open>str(n)\<close> of a non-negative integer is its decimal
  rendering; \<open>x or ""\<close> maps \<open>None\<close> and the empty text to the empty text.
\<close>

definition digit_char :: "nat \<Rightarrow> char" where
  "digit_char d = ''0123456789'' ! d"

fun str_nat :: "nat \<Rightarrow> string" where
  "str_nat n = (if n < 10 then [digit_char n] else str_nat (n div 10) @ [digit_char (n mod 10)])"

declare str_nat.simps [simp del]

definition str_int :: "int \<Rightarrow> string" where
  "str_int i = (if i < 0 then CHR ''-'' # str_nat (nat (- i)) else str_nat (nat i))"

definition or_empty :: "string option \<Rightarrow> string" where
  "or_empty x = (case x of None \<Rightarrow> [] | Some s \<Rightarrow> s)"

definition endswith :: "string \<Rightarrow> string \<Rightarrow> bool" where
  "endswith s suffix = (length suffix \<le> length s \<and> drop (length s - length suffix) s = suffix)"

section \<open>KeyFlattener\<close>

text \<open>
  \<open>KeyFlattener.keys\<close> is a \<open>defaultdict(lambda: 0)\<close>: every text has a count, 0 until
  it is incremented. \<open>flatKey\<close> mutates the instance, so the model returns the key
  together with the updated instance. The parser hands \<open>None\<close> or a text to each of
  the three arguments; \<open>"{fieldName}".format(fieldName=None)\<close> is \<open>"None"\<close>.
\<close>

record KeyFlattener =
  keys :: "string \<Rightarrow> nat"

definition KeyFlattener_init :: KeyFlattener where
  "KeyFlattener_init = \<lparr> keys = (\<lambda>_. 0) \<rparr>"

definition canonicalKey :: "string option \<Rightarrow> string option \<Rightarrow> string option \<Rightarrow> string" where
  "canonicalKey fieldName formatSpec conversion =
     (case fieldName of None \<Rightarrow> ''None'' | Some f \<Rightarrow> f)
       @ ''!'' @ or_empty conversion @ '':'' @ or_empty formatSpec"

definition flatKey ::
  "KeyFlattener \<Rightarrow> string option \<Rightarrow> string option \<Rightarrow> string option \<Rightarrow> string \<times> KeyFlattener" where
  "flatKey self fieldName formatSpec conversion =
     (let result = canonicalKey fieldName formatSpec conversion;
          self' = self\<lparr> keys := (keys self)(result := keys self result + 1) \<rparr>;
          n = keys self' result
      in (if n \<noteq> 1 then result @ ''/'' @ str_nat (keys self' result) else result, self'))"

text \<open>Calling \<open>flatKey\<close> \<open>n\<close> times in a row with the same arguments on one instance.\<close>

fun flatKey_repeat ::
  "nat \<Rightarrow> KeyFlattener \<Rightarrow> string option \<Rightarrow> string option \<Rightarrow> string option \<Rightarrow> string list" where
  "flatKey_repeat 0 self fieldName formatSpec conversion = []"
| "flatKey_repeat (Suc n) self fieldName formatSpec conversion =
     (case flatKey self fieldName formatSpec conversion of
        (key, self') \<Rightarrow> key # flatKey_repeat n self' fieldName formatSpec conversion)"

text \<open>The key returned by the \<open>i\<close>-th call for one canonical key.\<close>

definition nthKey :: "string \<Rightarrow> nat \<Rightarrow> string" where
  "nthKey canon i = (if i = 1 then canon else canon @ ''/'' @ str_nat i)"

section \<open>The \<open>repr\<close> of texts and bytes\<close>

definition hex_digit :: "nat \<Rightarrow> char" where
  "hex_digit d = ''0123456789abcdef'' ! d"

definition hex_escape :: "char \<Rightarrow> string" where
  "hex_escape c = [CHR 0x5C, CHR ''x'', hex_digit (of_char c div 16), hex_digit (of_char c mod 16)]"

text \<open>
  \<open>repr\<close> of a text (CPython 3, code points below 256): single quotes unless the text has
  a single quote and no double quote; the quote and the backslash are escaped, tab,
  newline and carriage return have their short escapes, every other non-printable
  character is written \<open>\xhh\<close>.
\<close>

definition str_printable :: "char \<Rightarrow> bool" where
  "str_printable c =
     (let n = (of_char c :: nat)
      in (32 \<le> n \<and> n < 127) \<or> (161 \<le> n \<and> n \<noteq> 173))"

definition bytes_printable :: "char \<Rightarrow> bool" where
  "bytes_printable c = (let n = (of_char c :: nat) in 32 \<le> n \<and> n < 127)"

definition repr_quote :: "string \<Rightarrow> char" where
  "repr_quote s = (if CHR 0x27 \<in> set s \<and> CHR 0x22 \<notin> set s then CHR 0x22 else CHR 0x27)"

definition repr_char :: "(char \<Rightarrow> bool) \<Rightarrow> char \<Rightarrow> char \<Rightarrow> string" where
  "repr_char printable quote c =
     (if c = quote \<or> c = CHR 0x5C then [CHR 0x5C, c]
      else if c = CHR 0x09 then [CHR 0x5C, CHR ''t'']
      else if c = CHR 0x0A then [CHR 0x5C, CHR ''n'']
      else if c = CHR 0x0D then [CHR 0x5C, CHR ''r'']
      else if printable c then [c]
      else hex_escape c)"

definition repr_str :: "string \<Rightarrow> string" where
  "repr_str s = (let q = repr_quote s in q # concat (map (repr_char str_printable q) s) @ [q])"

definition repr_bytes :: "string \<Rightarrow> string" where
  "repr_bytes b =
     (let q = repr_quote b in CHR ''b'' # q # concat (map (repr_char bytes_printable q) b) @ [q])"

definition quoted :: "string \<Rightarrow> string" where
  "quoted s = CHR 0x27 # s @ [CHR 0x27]"

text \<open>\<open>sep.join(xs)\<close>.\<close>

fun join :: "string \<Rightarrow> string list \<Rightarrow> string" where
  "join sep [] = []"
| "join sep [x] = x"
| "join sep (x # y # ys) = x @ sep @ join sep (y # ys)"

section \<open>Python values and exceptions\<close>

text \<open>
  A key of a subscription or of a lookup is an integer or a text. An exception is one
  of the built-in classes the formatting machinery raises, with its key or its message,
  or any other exception, given by its class name and by what \<open>str\<close> of it does (a
  broken \<open>__str__\<close> raises in its turn). Only instances of \<open>Exception\<close> are modelled:
  \<open>KeyboardInterrupt\<close> and \<open>SystemExit\<close>, which \<open>except Exception\<close> lets through
  on purpose, are no formatting failures.
\<close>

datatype fieldkey = KInt int | KStr string

datatype exn =
    KeyError fieldkey
  | IndexError string
  | TypeError string
  | ValueError string
  | AttributeError string
  | Other string "exn + string"

text \<open>
  The values an event can hold. A user-defined object is given by what its operations
  do: its class name, the outcome of \<open>str\<close> and of \<open>repr\<close>, its attributes, the
  outcome of calling it with no argument (\<open>None\<close> when it is not callable), and the
  outcome of its \<open>__format__\<close> for each format spec (\<open>None\<close> when its class defines
  no \<open>__format__\<close> and inherits \<open>object.__format__\<close>). The operations are pure: they
  return the same outcome every time and change nothing. An object is not subscriptable.
  A dictionary has text keys and keeps its insertion order.
\<close>

datatype pyval =
    VNone
  | VInt int
  | VStr string
  | VBytes string
  | VList "pyval list"
  | VDict "(string \<times> pyval) list"
  | VObj string "exn + string" "exn + string" "(string \<times> pyval) list" "(exn + pyval) option"
      "(string \<Rightarrow> exn + string) option"

type_synonym event = "(string \<times> pyval) list"

text \<open>\<open>str(e)\<close> of an exception: \<open>KeyError\<close> shows the \<open>repr\<close> of its key.\<close>

fun exn_str :: "exn \<Rightarrow> exn + string" where
  "exn_str (KeyError (KInt n)) = Inr (str_int n)"
| "exn_str (KeyError (KStr k)) = Inr (repr_str k)"
| "exn_str (IndexError m) = Inr m"
| "exn_str (TypeError m) = Inr m"
| "exn_str (ValueError m) = Inr m"
| "exn_str (AttributeError m) = Inr m"
| "exn_str (Other c r) = r"

fun py_repr :: "pyval \<Rightarrow> exn + string"
  and repr_elems :: "pyval list \<Rightarrow> exn + string list"
  and repr_items :: "(string \<times> pyval) list \<Rightarrow> exn + string list" where
  "py_repr VNone = Inr ''None''"
| "py_repr (VInt i) = Inr (str_int i)"
| "py_repr (VStr s) = Inr (repr_str s)"
| "py_repr (VBytes b) = Inr (repr_bytes b)"
| "py_repr (VList xs) =
     (case repr_elems xs of Inl e \<Rightarrow> Inl e | Inr rs \<Rightarrow> Inr (''['' @ join '', '' rs @ '']''))"
| "py_repr (VDict kvs) =
     (case repr_items kvs of Inl e \<Rightarrow> Inl e | Inr rs \<Rightarrow> Inr (''{'' @ join '', '' rs @ ''}''))"
| "py_repr (VObj c s r attrs f fmt) = r"
| "repr_elems [] = Inr []"
| "repr_elems (x # xs) =
     (case py_repr x of Inl e \<Rightarrow> Inl e
      | Inr r \<Rightarrow> (case repr_elems xs of Inl e \<Rightarrow> Inl e | Inr rs \<Rightarrow> Inr (r # rs)))"
| "repr_items [] = Inr []"
| "repr_items ((k, v) # kvs) =
     (case py_repr v of Inl e \<Rightarrow> Inl e
      | Inr r \<Rightarrow> (case repr_items kvs of Inl e \<Rightarrow> Inl e
                 | Inr rs \<Rightarrow> Inr ((repr_str k @ '': '' @ r) # rs)))"

fun py_str :: "pyval \<Rightarrow> exn + string" where
  "py_str (VStr s) = Inr s"
| "py_str (VObj c s r attrs f fmt) = s"
| "py_str v = py_repr v"

text \<open>\<open>ascii(v)\<close>: the \<open>repr\<close> with every non-ASCII character escaped.\<close>

definition py_ascii :: "pyval \<Rightarrow> exn + string" where
  "py_ascii v =
     (case py_repr v of Inl e \<Rightarrow> Inl e
      | Inr r \<Rightarrow> Inr (concat (map (\<lambda>c. if (of_char c :: nat) < 128 then [c] else hex_escape c) r)))"

text \<open>The name of a value's class, as error messages show it.\<close>

fun class_name :: "pyval \<Rightarrow> string" where
  "class_name VNone = ''NoneType''"
| "class_name (VInt i) = ''int''"
| "class_name (VStr s) = ''str''"
| "class_name (VBytes b) = ''bytes''"
| "class_name (VList xs) = ''list''"
| "class_name (VDict kvs) = ''dict''"
| "class_name (VObj c s r attrs f fmt) = c"

text \<open>\<open>v()\<close>: only objects given a call outcome are callable.\<close>

fun py_call :: "pyval \<Rightarrow> exn + pyval" where
  "py_call (VObj c s r attrs (Some outcome) fmt) = outcome"
| "py_call v = Inl (TypeError (quoted (class_name v) @ '' object is not callable''))"

text \<open>\<open>d[k]\<close> and \<open>d.get(k, None)\<close> on a dictionary with text keys.\<close>

definition dict_getitem :: "(string \<times> pyval) list \<Rightarrow> string \<Rightarrow> exn + pyval" where
  "dict_getitem d k = (case map_of d k of None \<Rightarrow> Inl (KeyError (KStr k)) | Some v \<Rightarrow> Inr v)"

definition dict_get :: "(string \<times> pyval) list \<Rightarrow> string \<Rightarrow> pyval" where
  "dict_get d k = (case map_of d k of None \<Rightarrow> VNone | Some v \<Rightarrow> v)"

definition dict_contains :: "(string \<times> pyval) list \<Rightarrow> string \<Rightarrow> bool" where
  "dict_contains d k = (case map_of d k of None \<Rightarrow> False | Some v \<Rightarrow> True)"

text \<open>
  \<open>obj[k]\<close> for a key that is an integer or a text. An integer index into a sequence
  of length \<open>n\<close> counts from the end when it is negative, and is out of range outside
  \<open>-n .. n - 1\<close>.
\<close>

definition sequence_index :: "nat \<Rightarrow> int \<Rightarrow> nat option" where
  "sequence_index n i =
     (let j = (if i < 0 then int n + i else i)
      in if 0 \<le> j \<and> j < int n then Some (nat j) else None)"

fun py_getitem :: "pyval \<Rightarrow> fieldkey \<Rightarrow> exn + pyval" where
  "py_getitem (VDict kvs) (KStr k) = dict_getitem kvs k"
| "py_getitem (VDict kvs) (KInt n) = Inl (KeyError (KInt n))"
| "py_getitem (VList xs) (KInt n) =
     (case sequence_index (length xs) n of
        None \<Rightarrow> Inl (IndexError ''list index out of range'')
      | Some j \<Rightarrow> Inr (xs ! j))"
| "py_getitem (VList xs) (KStr k) =
     Inl (TypeError ''list indices must be integers or slices, not str'')"
| "py_getitem (VStr s) (KInt n) =
     (case sequence_index (length s) n of
        None \<Rightarrow> Inl (IndexError ''string index out of range'')
      | Some j \<Rightarrow> Inr (VStr [s ! j]))"
| "py_getitem (VStr s) (KStr k) = Inl (TypeError ''string indices must be integers'')"
| "py_getitem (VBytes b) (KInt n) =
     (case sequence_index (length b) n of
        None \<Rightarrow> Inl (IndexError ''index out of range'')
      | Some j \<Rightarrow> Inr (VInt (of_char (b ! j))))"
| "py_getitem (VBytes b) (KStr k) =
     Inl (TypeError ''byte indices must be integers or slices, not str'')"
| "py_getitem v k = Inl (TypeError (quoted (class_name v) @ '' object is not subscriptable''))"

section \<open>What the rest of the Python runtime provides\<close>

text \<open>
  The operations of the interpreter and of the other modules that the formatting code
  calls and that are not modelled in detail are parameters: decoding UTF-8 bytes,
  the attributes of values of built-in types, \<open>format(v, spec)\<close> with a non-empty
  format spec for a value that has no \<open>__format__\<close> of its own, what \<open>twisted.python.reflect.safe_repr\<close> returns for a value whose
  \<open>repr\<close> raises and for an exception, the text of a \<open>Failure\<close> that captured an
  exception, and the rendering of a timestamp in the local time zone with a
  \<open>strftime\<close> pattern. Every theorem holds for every runtime.
\<close>

record runtime =
  decode_utf8 :: "string \<Rightarrow> exn + string"
  builtin_getattr :: "pyval \<Rightarrow> string \<Rightarrow> exn + pyval"
  format_with_spec :: "pyval \<Rightarrow> string \<Rightarrow> exn + string"
  repr_failed :: "pyval \<Rightarrow> exn \<Rightarrow> string"
  exn_safe_repr :: "exn \<Rightarrow> string"
  failure_str :: "exn \<Rightarrow> string"
  strftime_local :: "pyval \<Rightarrow> string \<Rightarrow> exn + string"

text \<open>\<open>getattr(obj, name)\<close>.\<close>

fun py_getattr :: "runtime \<Rightarrow> pyval \<Rightarrow> string \<Rightarrow> exn + pyval" where
  "py_getattr rt (VObj c s r attrs f fmt) name =
     (case map_of attrs name of
        None \<Rightarrow> Inl (AttributeError (quoted c @ '' object has no attribute '' @ quoted name))
      | Some v \<Rightarrow> Inr v)"
| "py_getattr rt v name = builtin_getattr rt v name"

text \<open>
  \<open>format(v, spec)\<close> calls the \<open>__format__\<close> of the value's class. An object whose
  class defines one answers for itself. Every other value, the values of the built-in
  types included, gives its \<open>str\<close> for the empty spec.
\<close>

fun own_format :: "pyval \<Rightarrow> (string \<Rightarrow> exn + string) option" where
  "own_format (VObj c s r attrs f fmt) = fmt"
| "own_format v = None"

definition py_format :: "runtime \<Rightarrow> pyval \<Rightarrow> string \<Rightarrow> exn + string" where
  "py_format rt v spec =
     (case own_format v of
        Some fmt \<Rightarrow> fmt spec
      | None \<Rightarrow> if spec = [] then py_str v else format_with_spec rt v spec)"

text \<open>\<open>safe_repr(v)\<close> never raises.\<close>

definition safe_repr :: "runtime \<Rightarrow> pyval \<Rightarrow> string" where
  "safe_repr rt v = (case py_repr v of Inr r \<Rightarrow> r | Inl e \<Rightarrow> repr_failed rt v e)"

section \<open>The template engine: \<open>string.Formatter\<close>\<close>

text \<open>
  \<open>theFormatter\<close> is an instance of the standard library's \<open>string.Formatter\<close>. Its
  methods are modelled after CPython 3 (\<open>Lib/string.py\<close> and
  \<open>Objects/stringlib/unicode_format.h\<close>).

  \<open>parse\<close> yields one tuple \<open>(literalText, fieldName, formatSpec, conversion)\<close> for
  each stretch of literal text followed by a replacement field; the last three are
  \<open>None\<close> when no field follows the literal text (at the end of the template, or
  after an escaped brace). The iterator is lazy: a malformed template raises
  \<open>ValueError\<close> only once the tuples before the malformation have been consumed. The
  model returns the tuples up to the first malformation, and the error if there is one.
\<close>

type_synonym segment = "string \<times> string option \<times> string option \<times> string option"

text \<open>
  The name of a field ends at \<open>}\<close>, \<open>:\<close> or \<open>!\<close> outside square brackets. The result
  is the name, the character that ended it and the text after that character.
\<close>

fun scan_field_name :: "bool \<Rightarrow> string \<Rightarrow> string \<Rightarrow> exn + (string \<times> char \<times> string)" where
  "scan_field_name in_brackets name [] = Inl (ValueError ''expected '}' before end of string'')"
| "scan_field_name True name (c # cs) = scan_field_name (c \<noteq> CHR '']'') (name @ [c]) cs"
| "scan_field_name False name (c # cs) =
     (if c = CHR ''{'' then Inl (ValueError ''unexpected '{' in field name'')
      else if c = CHR ''['' then scan_field_name True (name @ [c]) cs
      else if c = CHR ''}'' \<or> c = CHR '':'' \<or> c = CHR ''!'' then Inr (name, c, cs)
      else scan_field_name False (name @ [c]) cs)"

text \<open>
  The format spec ends at the \<open>}\<close> that closes the field; braces nest. The result is
  the spec and the text after the closing brace.
\<close>

fun scan_format_spec :: "nat \<Rightarrow> string \<Rightarrow> string \<Rightarrow> exn + (string \<times> string)" where
  "scan_format_spec count spec [] = Inl (ValueError ''unmatched '{' in format spec'')"
| "scan_format_spec count spec (c # cs) =
     (if c = CHR ''{'' then scan_format_spec (Suc count) (spec @ [c]) cs
      else if c = CHR ''}'' then
        (if count = 1 then Inr (spec, cs) else scan_format_spec (count - 1) (spec @ [c]) cs)
      else scan_format_spec count (spec @ [c]) cs)"

text \<open>
  \<open>parse_field\<close>: the replacement field that starts after an opening brace. A
  conversion is the one character after \<open>!\<close>; the null character stands for none.
\<close>

definition conversion_of :: "char \<Rightarrow> string option" where
  "conversion_of c = (if c = CHR 0x00 then None else Some [c])"

definition parse_field ::
  "string \<Rightarrow> exn + ((string \<times> string \<times> string option) \<times> string)" where
  "parse_field s =
     (case scan_field_name False [] s of
        Inl e \<Rightarrow> Inl e
      | Inr (name, c, rest) \<Rightarrow>
          if c = CHR ''}'' then Inr ((name, [], None), rest)
          else if c = CHR ''!'' then
            (case rest of
               [] \<Rightarrow> Inl (ValueError ''end of string while looking for conversion specifier'')
             | conv # rest1 \<Rightarrow>
                 (case rest1 of
                    [] \<Rightarrow> Inl (ValueError ''unmatched '{' in format spec'')
                  | c2 # rest2 \<Rightarrow>
                      if c2 = CHR ''}'' then Inr ((name, [], conversion_of conv), rest2)
                      else if c2 \<noteq> CHR '':'' then
                        Inl (ValueError ''expected ':' after conversion specifier'')
                      else (case scan_format_spec 1 [] rest2 of
                              Inl e \<Rightarrow> Inl e
                            | Inr (spec, rest3) \<Rightarrow> Inr ((name, spec, conversion_of conv), rest3))))
          else (case scan_format_spec 1 [] rest of
                  Inl e \<Rightarrow> Inl e
                | Inr (spec, rest1) \<Rightarrow> Inr ((name, spec, None), rest1)))"

text \<open>
  \<open>MarkupIterator_next\<close>: the next tuple of a non-empty template, and the text that
  remains after it.
\<close>

definition is_brace :: "char \<Rightarrow> bool" where
  "is_brace c = (c = CHR ''{'' \<or> c = CHR ''}'')"

definition markup_next :: "string \<Rightarrow> exn + (segment \<times> string)" where
  "markup_next s =
     (let literal = takeWhile (\<lambda>c. \<not> is_brace c) s
      in case dropWhile (\<lambda>c. \<not> is_brace c) s of
           [] \<Rightarrow> Inr ((literal, None, None, None), [])
         | c # rest \<Rightarrow>
             (case rest of
                [] \<Rightarrow>
                  (if c = CHR ''}'' then Inl (ValueError ''Single '}' encountered in format string'')
                   else Inl (ValueError ''Single '{' encountered in format string''))
              | c2 # rest2 \<Rightarrow>
                  if c = CHR ''}'' \<and> c2 \<noteq> c then
                    Inl (ValueError ''Single '}' encountered in format string'')
                  else if c2 = c then Inr ((literal @ [c], None, None, None), rest2)
                  else (case parse_field rest of
                          Inl e \<Rightarrow> Inl e
                        | Inr ((name, spec, conv), rest3) \<Rightarrow>
                            Inr ((literal, Some name, Some spec, conv), rest3))))"

lemma scan_field_name_shorter:
  "scan_field_name b name s = Inr (n, c, rest) \<Longrightarrow> length rest < length s"
  by (induction b name s rule: scan_field_name.induct) (auto split: if_splits)

lemma scan_format_spec_shorter:
  "scan_format_spec k spec s = Inr (sp, rest) \<Longrightarrow> length rest < length s"
  by (induction k spec s rule: scan_format_spec.induct) (auto split: if_splits)

lemma parse_field_shorter: "parse_field s = Inr (x, rest) \<Longrightarrow> length rest < length s"
  unfolding parse_field_def
  by (auto split: sum.splits prod.splits if_splits list.splits
      dest!: scan_field_name_shorter scan_format_spec_shorter)

lemma markup_next_shorter:
  assumes "markup_next s = Inr (seg, rest)" and "s \<noteq> []"
  shows "length rest < length s"
proof -
  have le: "length (dropWhile (\<lambda>c. \<not> is_brace c) s) \<le> length s"
    by (rule length_dropWhile_le)
  show ?thesis
  proof (cases "dropWhile (\<lambda>c. \<not> is_brace c) s")
    case Nil
    with assms show ?thesis by (simp add: markup_next_def)
  next
    case (Cons c r)
    with assms le show ?thesis
      by (auto simp: markup_next_def Let_def split: list.splits if_splits sum.splits prod.splits
          dest!: parse_field_shorter)
  qed
qed

text \<open>\<open>Formatter.parse\<close>: the tuples of a template, in order.\<close>

function parse :: "string \<Rightarrow> segment list \<times> exn option" where
  "parse s =
     (if s = [] then ([], None)
      else case markup_next s of
             Inl e \<Rightarrow> ([], Some e)
           | Inr (seg, rest) \<Rightarrow> (case parse rest of (segs, err) \<Rightarrow> (seg # segs, err)))"
  by pat_completeness auto
termination
  by (relation "measure length") (auto dest: markup_next_shorter)

declare parse.simps [simp del]

text \<open>
  \<open>formatter_field_name_split\<close>: the first component of a field name runs to the first
  \<open>.\<close> or \<open>[\<close>; it is an integer when it is a decimal numeral. An integer beyond
  \<open>PY_SSIZE_T_MAX\<close> (here of a 64-bit build) is an error.
\<close>

definition PY_SSIZE_T_MAX :: int where
  "PY_SSIZE_T_MAX = 9223372036854775807"

definition decimal_value :: "char \<Rightarrow> int option" where
  "decimal_value c =
     (let n = (of_char c :: int) in if 48 \<le> n \<and> n \<le> 57 then Some (n - 48) else None)"

fun get_integer_from :: "int \<Rightarrow> string \<Rightarrow> exn + int option" where
  "get_integer_from accumulator [] = Inr (Some accumulator)"
| "get_integer_from accumulator (c # cs) =
     (case decimal_value c of
        None \<Rightarrow> Inr None
      | Some digitval \<Rightarrow>
          if accumulator > (PY_SSIZE_T_MAX - digitval) div 10
          then Inl (ValueError ''Too many decimal digits in format string'')
          else get_integer_from (accumulator * 10 + digitval) cs)"

definition get_integer :: "string \<Rightarrow> exn + int option" where
  "get_integer s = (if s = [] then Inr None else get_integer_from 0 s)"

definition is_sep :: "char \<Rightarrow> bool" where
  "is_sep c = (c = CHR ''.'' \<or> c = CHR ''['')"

definition field_name_split :: "string \<Rightarrow> exn + (fieldkey \<times> string)" where
  "field_name_split field_name =
     (let first = takeWhile (\<lambda>c. \<not> is_sep c) field_name;
          rest = dropWhile (\<lambda>c. \<not> is_sep c) field_name
      in case get_integer first of
           Inl e \<Rightarrow> Inl e
         | Inr None \<Rightarrow> Inr (KStr first, rest)
         | Inr (Some n) \<Rightarrow> Inr (KInt n, rest))"

text \<open>
  The iterator over the rest of a field name yields \<open>(is_attr, name)\<close> pairs: an
  attribute after \<open>.\<close>, an item between \<open>[\<close> and \<open>]\<close>. It is lazy too.
\<close>

datatype accessor = Attr string | Item fieldkey

definition field_name_next :: "string \<Rightarrow> exn + (accessor \<times> string)" where
  "field_name_next s =
     (case s of
        [] \<Rightarrow> Inl (ValueError ''Empty attribute in format string'')
      | c # cs \<Rightarrow>
          if c = CHR ''.'' then
            (let name = takeWhile (\<lambda>c. \<not> is_sep c) cs
             in if name = [] then Inl (ValueError ''Empty attribute in format string'')
                else Inr (Attr name, dropWhile (\<lambda>c. \<not> is_sep c) cs))
          else if c = CHR ''['' then
            (case dropWhile (\<lambda>c. c \<noteq> CHR '']'') cs of
               [] \<Rightarrow> Inl (ValueError ''Missing ']' in format string'')
             | bracket # rest \<Rightarrow>
                 (let name = takeWhile (\<lambda>c. c \<noteq> CHR '']'') cs
                  in case get_integer name of
                       Inl e \<Rightarrow> Inl e
                     | Inr idx \<Rightarrow>
                         if name = [] then Inl (ValueError ''Empty attribute in format string'')
                         else Inr (Item (case idx of None \<Rightarrow> KStr name | Some n \<Rightarrow> KInt n), rest)))
          else Inl (ValueError
                 ''Only '.' or '[' may follow ']' in format field specifier''))"

lemma field_name_next_shorter:
  "field_name_next s = Inr (a, rest) \<Longrightarrow> length rest < length s"
proof (cases s)
  case Nil
  assume "field_name_next s = Inr (a, rest)"
  with Nil show ?thesis by (simp add: field_name_next_def)
next
  case (Cons c cs)
  assume r: "field_name_next s = Inr (a, rest)"
  have l1: "length (dropWhile (\<lambda>c. \<not> is_sep c) cs) \<le> length cs"
    by (rule length_dropWhile_le)
  have l2: "length (dropWhile (\<lambda>c. c \<noteq> CHR '']'') cs) \<le> length cs"
    by (rule length_dropWhile_le)
  from r Cons l1 l2 show ?thesis
    by (auto simp: field_name_next_def Let_def split: if_splits list.splits sum.splits)
qed

text \<open>
  \<open>Formatter.get_field\<close> with no positional arguments: the first component is looked
  up in the keyword mapping (an integer first component indexes the empty tuple of
  positional arguments), then each attribute or item is taken in turn.
\<close>

definition get_value :: "fieldkey \<Rightarrow> (string \<Rightarrow> exn + pyval) \<Rightarrow> exn + pyval" where
  "get_value key kwargs =
     (case key of KInt n \<Rightarrow> Inl (IndexError ''tuple index out of range'') | KStr k \<Rightarrow> kwargs k)"

function get_field_rest :: "runtime \<Rightarrow> pyval \<Rightarrow> string \<Rightarrow> exn + pyval" where
  "get_field_rest rt obj rest =
     (if rest = [] then Inr obj
      else case field_name_next rest of
             Inl e \<Rightarrow> Inl e
           | Inr (Attr i, rest') \<Rightarrow>
               (case py_getattr rt obj i of Inl e \<Rightarrow> Inl e | Inr obj' \<Rightarrow> get_field_rest rt obj' rest')
           | Inr (Item i, rest') \<Rightarrow>
               (case py_getitem obj i of Inl e \<Rightarrow> Inl e | Inr obj' \<Rightarrow> get_field_rest rt obj' rest'))"
  by pat_completeness auto
termination
  by (relation "measure (\<lambda>(rt, obj, rest). length rest)") (auto dest: field_name_next_shorter)

declare get_field_rest.simps [simp del]

definition get_field :: "runtime \<Rightarrow> string \<Rightarrow> (string \<Rightarrow> exn + pyval) \<Rightarrow> exn + pyval" where
  "get_field rt field_name kwargs =
     (case field_name_split field_name of
        Inl e \<Rightarrow> Inl e
      | Inr (first, rest) \<Rightarrow>
          (case get_value first kwargs of Inl e \<Rightarrow> Inl e | Inr obj \<Rightarrow> get_field_rest rt obj rest))"

text \<open>\<open>Formatter.convert_field\<close> and \<open>Formatter.format_field\<close>.\<close>

definition convert_field :: "pyval \<Rightarrow> string option \<Rightarrow> exn + pyval" where
  "convert_field v conversion =
     (case conversion of
        None \<Rightarrow> Inr v
      | Some c \<Rightarrow>
          if c = ''s'' then (case py_str v of Inl e \<Rightarrow> Inl e | Inr t \<Rightarrow> Inr (VStr t))
          else if c = ''r'' then (case py_repr v of Inl e \<Rightarrow> Inl e | Inr t \<Rightarrow> Inr (VStr t))
          else if c = ''a'' then (case py_ascii v of Inl e \<Rightarrow> Inl e | Inr t \<Rightarrow> Inr (VStr t))
          else Inl (ValueError (''Unknown conversion specifier '' @ c)))"

definition format_field :: "runtime \<Rightarrow> pyval \<Rightarrow> string \<Rightarrow> exn + string" where
  "format_field rt v format_spec = py_format rt v format_spec"

text \<open>
  \<open>str.isdigit\<close> on code points below 256: the ASCII digits and the superscripts
  two, three and one.
\<close>

definition py_isdigit :: "string \<Rightarrow> bool" where
  "py_isdigit s =
     (s \<noteq> [] \<and> list_all (\<lambda>c. let n = (of_char c :: nat)
                               in (48 \<le> n \<and> n \<le> 57) \<or> n = 178 \<or> n = 179 \<or> n = 185) s)"

text \<open>
  The loop of \<open>Formatter._vformat\<close> over the tuples of a template. \<open>expand\<close> is
  \<open>_vformat\<close> one level deeper, for the replacement fields inside a format spec;
  \<open>auto_arg_index\<close> is a number, or \<open>False\<close> (here \<open>None\<close>) once a field was numbered
  by hand. The result is the text and the final \<open>auto_arg_index\<close>.
\<close>

fun vformat_loop ::
  "(string \<Rightarrow> nat option \<Rightarrow> exn + (string \<times> nat option)) \<Rightarrow> runtime \<Rightarrow>
   (string \<Rightarrow> exn + pyval) \<Rightarrow> string \<Rightarrow> nat option \<Rightarrow> segment list \<Rightarrow> exn option \<Rightarrow>
   exn + (string \<times> nat option)" where
  "vformat_loop expand rt kwargs result auto_arg_index [] err =
     (case err of None \<Rightarrow> Inr (result, auto_arg_index) | Some e \<Rightarrow> Inl e)"
| "vformat_loop expand rt kwargs result auto_arg_index
     ((literal_text, None, format_spec, conversion) # segs) err =
     vformat_loop expand rt kwargs (result @ literal_text) auto_arg_index segs err"
| "vformat_loop expand rt kwargs result auto_arg_index
     ((literal_text, Some field_name, format_spec, conversion) # segs) err =
     (case (if field_name = [] then
              (case auto_arg_index of
                 None \<Rightarrow> Inl (ValueError
                   ''cannot switch from manual field specification to automatic field numbering'')
               | Some n \<Rightarrow> Inr (str_nat n, Some (n + 1)))
            else if py_isdigit field_name then
              (if auto_arg_index \<noteq> None \<and> auto_arg_index \<noteq> Some 0 then Inl (ValueError
                   ''cannot switch from manual field specification to automatic field numbering'')
               else Inr (field_name, None))
            else Inr (field_name, auto_arg_index)) of
        Inl e \<Rightarrow> Inl e
      | Inr (field_name', auto1) \<Rightarrow>
          (case get_field rt field_name' kwargs of
             Inl e \<Rightarrow> Inl e
           | Inr obj \<Rightarrow>
               (case convert_field obj conversion of
                  Inl e \<Rightarrow> Inl e
                | Inr obj' \<Rightarrow>
                    (case expand (or_empty format_spec) auto1 of
                       Inl e \<Rightarrow> Inl e
                     | Inr (format_spec', auto2) \<Rightarrow>
                         (case format_field rt obj' format_spec' of
                            Inl e \<Rightarrow> Inl e
                          | Inr text \<Rightarrow>
                              vformat_loop expand rt kwargs (result @ literal_text @ text)
                                auto2 segs err)))))"

text \<open>
  \<open>_vformat\<close> with \<open>depth = recursion_depth + 1\<close>: at depth 0 the recursion limit is
  exceeded. \<open>vformat\<close> starts with \<open>recursion_depth = 2\<close> and \<open>auto_arg_index = 0\<close>.
\<close>

primrec vformat_depth ::
  "nat \<Rightarrow> runtime \<Rightarrow> (string \<Rightarrow> exn + pyval) \<Rightarrow> string \<Rightarrow> nat option \<Rightarrow>
   exn + (string \<times> nat option)" where
  "vformat_depth 0 rt kwargs format_string auto_arg_index =
     Inl (ValueError ''Max string recursion exceeded'')"
| "vformat_depth (Suc depth) rt kwargs format_string auto_arg_index =
     vformat_loop (vformat_depth depth rt kwargs) rt kwargs [] auto_arg_index
       (fst (parse format_string)) (snd (parse format_string))"

definition vformat :: "runtime \<Rightarrow> string \<Rightarrow> (string \<Rightarrow> exn + pyval) \<Rightarrow> exn + string" where
  "vformat rt format_string kwargs =
     (case vformat_depth 3 rt kwargs format_string (Some 0) of
        Inl e \<Rightarrow> Inl e
      | Inr (result, auto_arg_index) \<Rightarrow> Inr result)"

section \<open>A runtime for the examples\<close>

text \<open>
  A runtime for evaluating examples: it decodes ASCII bytes only, its built-in values
  have no attributes, it formats an integer or a text with a right-aligning spec
  \<open>>N\<close> (the value padded with spaces on the left to \<open>N\<close> characters) and rejects
  every other non-empty format spec, and it treats every timestamp as unusable. The
  examples below do not reach these operations unless they say so.
\<close>

definition pad_left :: "nat \<Rightarrow> string \<Rightarrow> string" where
  "pad_left width s = replicate (width - length s) (CHR '' '') @ s"

definition example_format :: "pyval \<Rightarrow> string \<Rightarrow> exn + string" where
  "example_format v spec =
     (case spec of
        [] \<Rightarrow> Inl (ValueError ''Invalid format specifier'')
      | c # w \<Rightarrow>
          if c = CHR ''>'' \<and> w \<noteq> [] \<and> hd w \<noteq> CHR ''0'' then
            (case get_integer w of
               Inr (Some n) \<Rightarrow>
                 (case v of
                    VInt i \<Rightarrow> Inr (pad_left (nat n) (str_int i))
                  | VStr t \<Rightarrow> Inr (pad_left (nat n) t)
                  | _ \<Rightarrow> Inl (TypeError ''unsupported format string passed to __format__''))
             | _ \<Rightarrow> Inl (ValueError ''Invalid format specifier''))
          else Inl (ValueError ''Invalid format specifier''))"

definition example_runtime :: runtime where
  "example_runtime =
     \<lparr> decode_utf8 = (\<lambda>b. if list_all (\<lambda>c. (of_char c :: nat) < 128) b then Inr b
                         else Inl (Other ''UnicodeDecodeError'' (Inr ''invalid start byte''))),
       builtin_getattr = (\<lambda>v name.
          Inl (AttributeError (quoted (class_name v) @ '' object has no attribute '' @ quoted name))),
       format_with_spec = example_format,
       repr_failed = (\<lambda>v e. ''<'' @ class_name v @ '' instance with repr error>''),
       exn_safe_repr = (\<lambda>e. ''<exception>''),
       failure_str = (\<lambda>e. ''[Failure instance]''),
       strftime_local = (\<lambda>when pattern. Inl (TypeError ''a float is required'')) \<rparr>"

section \<open>The event formatter of \<open>twisted.python.logger._format\<close>\<close>

text \<open>
  An event is a dictionary with text keys. \<open>timeFormatRFC3339\<close> is the module's
  default time format.
\<close>

definition timeFormatRFC3339 :: string where
  "timeFormatRFC3339 = ''%Y-%m-%dT%H:%M:%S%z''"

subsection \<open>\<open>CallMapping\<close> and \<open>formatWithCall\<close>\<close>

definition CallMapping_getitem :: "event \<Rightarrow> string \<Rightarrow> exn + pyval" where
  "CallMapping_getitem submapping key =
     (let callit = endswith key ''()'';
          realKey = (if callit then take (length key - 2) key else key)
      in case dict_getitem submapping realKey of
           Inl e \<Rightarrow> Inl e
         | Inr v \<Rightarrow> if callit then py_call v else Inr v)"

definition formatWithCall :: "runtime \<Rightarrow> string \<Rightarrow> event \<Rightarrow> exn + string" where
  "formatWithCall rt formatString mapping = vformat rt formatString (CallMapping_getitem mapping)"

subsection \<open>\<open>flatFormat\<close>\<close>

text \<open>\<open>conversion or "s"\<close>.\<close>

definition or_s :: "string option \<Rightarrow> string" where
  "or_s conversion = (case conversion of None \<Rightarrow> ''s'' | Some c \<Rightarrow> if c = [] then ''s'' else c)"

text \<open>
  The loop of \<open>flatFormat\<close>: \<open>s\<close> is the text built so far. The parser's error, if
  any, is raised when the tuples before it have been rendered.
\<close>

fun flatFormat_loop ::
  "pyval \<Rightarrow> KeyFlattener \<Rightarrow> string \<Rightarrow> segment list \<Rightarrow> exn option \<Rightarrow> exn + string" where
  "flatFormat_loop fields' keyFlattener s [] err = (case err of None \<Rightarrow> Inr s | Some e \<Rightarrow> Inl e)"
| "flatFormat_loop fields' keyFlattener s ((literalText, fieldName, formatSpec, conversion) # segs) err =
     (case flatKey keyFlattener fieldName formatSpec (Some (or_s conversion)) of
        (key, keyFlattener') \<Rightarrow>
          (case py_getitem fields' (KStr key) of
             Inl e \<Rightarrow> Inl e
           | Inr v \<Rightarrow>
               (case py_str v of
                  Inl e \<Rightarrow> Inl e
                | Inr text \<Rightarrow> flatFormat_loop fields' keyFlattener' (s @ literalText @ text) segs err)))"

text \<open>\<open>Formatter.parse\<close> of a value: only a text can be parsed.\<close>

definition parse_value :: "pyval \<Rightarrow> exn + (segment list \<times> exn option)" where
  "parse_value v =
     (case v of
        VStr t \<Rightarrow> Inr (parse t)
      | _ \<Rightarrow> Inl (TypeError (''expected str, got '' @ class_name v)))"

definition flatFormat :: "event \<Rightarrow> exn + string" where
  "flatFormat event =
     (case dict_getitem event ''log_flattened'' of
        Inl e \<Rightarrow> Inl e
      | Inr fields' \<Rightarrow>
          (case dict_getitem event ''log_format'' of
             Inl e \<Rightarrow> Inl e
           | Inr format \<Rightarrow>
               (case parse_value format of
                  Inl e \<Rightarrow> Inl e
                | Inr (segs, err) \<Rightarrow> flatFormat_loop fields' KeyFlattener_init [] segs err)))"

subsection \<open>\<open>flattenEvent\<close>\<close>

text \<open>
  \<open>flattenEvent\<close> calls into the event's objects: it resolves a field with
  \<open>get_field\<close>, and invokes the value of a field whose name ends in \<open>()\<close>. The model
  records these calls, in order, beside the dictionary it builds.
\<close>

datatype effect = Resolved string | Invoked string

definition conversionFunction :: "string \<Rightarrow> pyval \<Rightarrow> exn + pyval" where
  "conversionFunction conversion v =
     (if conversion = ''s'' then (case py_str v of Inl e \<Rightarrow> Inl e | Inr t \<Rightarrow> Inr (VStr t))
      else if conversion = ''r'' then (case py_repr v of Inl e \<Rightarrow> Inl e | Inr t \<Rightarrow> Inr (VStr t))
      else Inr v)"

fun flattenEvent_loop ::
  "runtime \<Rightarrow> event \<Rightarrow> KeyFlattener \<Rightarrow> (string \<times> pyval) list \<Rightarrow> effect list \<Rightarrow>
   segment list \<Rightarrow> exn option \<Rightarrow> exn + ((string \<times> pyval) list \<times> effect list)" where
  "flattenEvent_loop rt event keyFlattener fields' calls [] err =
     (case err of None \<Rightarrow> Inr (fields', calls) | Some e \<Rightarrow> Inl e)"
| "flattenEvent_loop rt event keyFlattener fields' calls
     ((literalText, fieldName, formatSpec, conversion0) # segs) err =
     (let conversion = (if conversion0 \<noteq> Some ''r'' then ''s'' else ''r'')
      in case flatKey keyFlattener fieldName formatSpec (Some conversion) of
        (flattenedKey, keyFlattener1) \<Rightarrow>
      (case flatKey keyFlattener1 fieldName formatSpec (Some []) of
        (structuredKey, keyFlattener2) \<Rightarrow>
          if dict_contains fields' flattenedKey
          then flattenEvent_loop rt event keyFlattener2 fields' calls segs err
          else
            (case fieldName of
               None \<Rightarrow> Inl (AttributeError
                         (quoted ''NoneType'' @ '' object has no attribute '' @ quoted ''endswith''))
             | Some name \<Rightarrow>
                 (let callit = endswith name ''()'';
                      fieldName' = (if callit then take (length name - 2) name else name)
                  in case get_field rt fieldName' (dict_getitem event) of
                       Inl e \<Rightarrow> Inl e
                     | Inr fieldValue0 \<Rightarrow>
                         (case (if callit then py_call fieldValue0 else Inr fieldValue0) of
                            Inl e \<Rightarrow> Inl e
                          | Inr fieldValue \<Rightarrow>
                              (case conversionFunction conversion fieldValue of
                                 Inl e \<Rightarrow> Inl e
                               | Inr flattenedValue \<Rightarrow>
                                   flattenEvent_loop rt event keyFlattener2
                                     (AList.update structuredKey fieldValue
                                        (AList.update flattenedKey flattenedValue fields'))
                                     (calls @ Resolved fieldName'
                                        # (if callit then [Invoked fieldName'] else []))
                                     segs err))))))"

text \<open>
  \<open>flattenEvent\<close> mutates the event: the model returns the event after the call (the
  same event when it has no \<open>log_format\<close>), with the calls made, or the exception.
\<close>

definition flattenEvent_calls :: "runtime \<Rightarrow> event \<Rightarrow> exn + (event \<times> effect list)" where
  "flattenEvent_calls rt event =
     (if \<not> dict_contains event ''log_format'' then Inr (event, [])
      else case dict_getitem event ''log_format'' of
             Inl e \<Rightarrow> Inl e
           | Inr format \<Rightarrow>
               (case parse_value format of
                  Inl e \<Rightarrow> Inl e
                | Inr (segs, err) \<Rightarrow>
                    (case flattenEvent_loop rt event KeyFlattener_init [] [] segs err of
                       Inl e \<Rightarrow> Inl e
                     | Inr (fields', calls) \<Rightarrow>
                         Inr (AList.update ''log_flattened'' (VDict fields') event, calls))))"

definition flattenEvent :: "runtime \<Rightarrow> event \<Rightarrow> exn + event" where
  "flattenEvent rt event =
     (case flattenEvent_calls rt event of Inl e \<Rightarrow> Inl e | Inr (event', calls) \<Rightarrow> Inr event')"

subsection \<open>\<open>extractField\<close>\<close>

text \<open>
  The double unpacking \<open>[[literalText, fieldName, formatSpec, conversion]] = parse(...)\<close>
  needs exactly one tuple. The result is the value and the event after the call, which
  \<open>flattenEvent\<close> may have changed.
\<close>

definition unpack_single :: "segment list \<times> exn option \<Rightarrow> exn + segment" where
  "unpack_single p =
     (case p of
        ([], None) \<Rightarrow> Inl (ValueError ''not enough values to unpack (expected 1, got 0)'')
      | ([], Some e) \<Rightarrow> Inl e
      | ([seg], None) \<Rightarrow> Inr seg
      | ([seg], Some e) \<Rightarrow> Inl e
      | (seg # seg2 # segs, err) \<Rightarrow> Inl (ValueError ''too many values to unpack (expected 1)''))"

definition extractField :: "runtime \<Rightarrow> string \<Rightarrow> event \<Rightarrow> exn + (pyval \<times> event)" where
  "extractField rt field event =
     (case unpack_single (parse (''{'' @ field @ ''}'')) of
        Inl e \<Rightarrow> Inl e
      | Inr (literalText, fieldName, formatSpec, conversion) \<Rightarrow>
          (case flatKey KeyFlattener_init fieldName formatSpec conversion of
             (key, keyFlattener) \<Rightarrow>
               (case (if \<not> dict_contains event ''log_flattened'' then flattenEvent rt event
                      else Inr event) of
                  Inl e \<Rightarrow> Inl e
                | Inr event' \<Rightarrow>
                    (case dict_getitem event' ''log_flattened'' of
                       Inl e \<Rightarrow> Inl e
                     | Inr flattened \<Rightarrow>
                         (case py_getitem flattened (KStr key) of
                            Inl e \<Rightarrow> Inl e
                          | Inr v \<Rightarrow> Inr (v, event'))))))"

subsection \<open>\<open>formatUnformattableEvent\<close> and \<open>formatEvent\<close>\<close>

text \<open>
  \<open>formatUnformattableEvent\<close>: the first message is tried, and when building it
  raises, the second one is put together from \<open>safe_repr\<close> and the \<open>Failure\<close> that
  captured the exception.
\<close>

definition unableToFormat :: "event \<Rightarrow> exn \<Rightarrow> exn + string" where
  "unableToFormat event error =
     (case py_repr (VDict event) of
        Inl e \<Rightarrow> Inl e
      | Inr r \<Rightarrow>
          (case exn_str error of
             Inl e \<Rightarrow> Inl e
           | Inr m \<Rightarrow> Inr (''Unable to format event '' @ r @ '': '' @ m)))"

definition messageLost :: "runtime \<Rightarrow> event \<Rightarrow> exn \<Rightarrow> exn \<Rightarrow> string" where
  "messageLost rt event error failure =
     (let text = join '', ''
            (map (\<lambda>(key, v). join '' = '' [safe_repr rt (VStr key), safe_repr rt v]) event)
      in ''MESSAGE LOST: unformattable object logged: '' @ exn_safe_repr rt error
         @ [CHR 0x0A] @ ''Recoverable data: '' @ text
         @ [CHR 0x0A] @ ''Exception during formatting:'' @ [CHR 0x0A]
         @ failure_str rt failure)"

definition formatUnformattableEvent :: "runtime \<Rightarrow> event \<Rightarrow> exn \<Rightarrow> exn + string" where
  "formatUnformattableEvent rt event error =
     (case unableToFormat event error of
        Inr text \<Rightarrow> Inr text
      | Inl failure \<Rightarrow> Inr (messageLost rt event error failure))"

text \<open>
  \<open>formatEvent_try\<close> is the body of the \<open>try\<close> statement of \<open>formatEvent\<close>, and
  \<open>formatEvent\<close> adds its handler, \<open>except Exception as e\<close>.
\<close>

definition formatEvent_try :: "runtime \<Rightarrow> event \<Rightarrow> exn + string" where
  "formatEvent_try rt event =
     (if dict_contains event ''log_flattened'' then flatFormat event
      else (case dict_get event ''log_format'' of
              VNone \<Rightarrow> Inr []
            | VBytes b \<Rightarrow>
                (case decode_utf8 rt b of
                   Inl e \<Rightarrow> Inl e
                 | Inr format \<Rightarrow> formatWithCall rt format event)
            | VStr format \<Rightarrow> formatWithCall rt format event
            | format \<Rightarrow>
                (case py_repr format of
                   Inl e \<Rightarrow> Inl e
                 | Inr r \<Rightarrow>
                     Inl (TypeError (''Log format must be unicode or bytes, not '' @ r)))))"

definition formatEvent :: "runtime \<Rightarrow> event \<Rightarrow> exn + string" where
  "formatEvent rt event =
     (case formatEvent_try rt event of
        Inr text \<Rightarrow> Inr text
      | Inl e \<Rightarrow> formatUnformattableEvent rt event e)"

subsection \<open>\<open>formatTime\<close> and \<open>formatEventAsClassicLogText\<close>\<close>

text \<open>
  \<open>formatTime(when, timeFormat, default)\<close>; \<open>formatTime_default\<close> is the call with the
  default arguments, \<open>timeFormat=timeFormatRFC3339\<close> and \<open>default=u"-"\<close>.
\<close>

definition formatTime :: "runtime \<Rightarrow> pyval \<Rightarrow> string option \<Rightarrow> string \<Rightarrow> exn + string" where
  "formatTime rt when timeFormat default' =
     (case timeFormat of
        None \<Rightarrow> Inr default'
      | Some pattern \<Rightarrow> if when = VNone then Inr default' else strftime_local rt when pattern)"

definition formatTime_default :: "runtime \<Rightarrow> pyval \<Rightarrow> exn + string" where
  "formatTime_default rt when = formatTime rt when (Some timeFormatRFC3339) ''-''"

text \<open>\<open>eventText.replace(u"\n", u"\n\t")\<close>.\<close>

definition indent_newlines :: "string \<Rightarrow> string" where
  "indent_newlines s = concat (map (\<lambda>c. if c = CHR 0x0A then [CHR 0x0A, CHR 0x09] else [c]) s)"

text \<open>
  \<open>formatEventAsClassicLogText(event, formatTime)\<close>: the result is \<open>None\<close> when the
  event formats to the empty text. Nothing here catches an exception, but the one of
  \<open>unicode(system)\<close>.
\<close>

definition classicSystem :: "runtime \<Rightarrow> event \<Rightarrow> exn + string" where
  "classicSystem rt event =
     (case dict_get event ''log_system'' of
        VNone \<Rightarrow>
          (case (case dict_get event ''log_level'' of
                   VNone \<Rightarrow> Inr (VStr ''-'')
                 | level \<Rightarrow> py_getattr rt level ''name'') of
             Inl e \<Rightarrow> Inl e
           | Inr levelName \<Rightarrow>
               (case py_format rt (case map_of event ''log_namespace'' of
                                     None \<Rightarrow> VStr ''-'' | Some n \<Rightarrow> n) [] of
                  Inl e \<Rightarrow> Inl e
                | Inr namespace \<Rightarrow>
                    (case py_format rt levelName [] of
                       Inl e \<Rightarrow> Inl e
                     | Inr level \<Rightarrow> Inr (namespace @ ''#'' @ level))))
      | system \<Rightarrow> (case py_str system of Inl e \<Rightarrow> Inr ''UNFORMATTABLE'' | Inr t \<Rightarrow> Inr t))"

definition formatEventAsClassicLogText ::
  "runtime \<Rightarrow> event \<Rightarrow> (pyval \<Rightarrow> exn + string) \<Rightarrow> exn + string option" where
  "formatEventAsClassicLogText rt event formatTime' =
     (case formatEvent rt event of
        Inl e \<Rightarrow> Inl e
      | Inr eventText \<Rightarrow>
          if eventText = [] then Inr None
          else
            (case formatTime' (dict_get event ''log_time'') of
               Inl e \<Rightarrow> Inl e
             | Inr timeStamp \<Rightarrow>
                 (case classicSystem rt event of
                    Inl e \<Rightarrow> Inl e
                  | Inr system \<Rightarrow>
                      Inr (Some (timeStamp @ '' ['' @ system @ ''] ''
                                 @ indent_newlines eventText @ [CHR 0x0A])))))"

section \<open>Example values\<close>

text \<open>\<open>lambda: 7\<close>, a function of no argument that returns 7.\<close>

definition lambda7 :: pyval where
  "lambda7 = VObj ''function'' (Inr ''<function <lambda>>'') (Inr ''<function <lambda>>'') []
               (Some (Inr (VInt 7))) None"

text \<open>
  A log level is an object with a \<open>name\<close>, and \<open>objectWithMethod\<close> has a method
  \<open>f\<close> that returns 7.
\<close>

definition levelNamed :: "string \<Rightarrow> pyval" where
  "levelNamed name = VObj ''NamedConstant'' (Inr (''<LogLevel='' @ name @ ''>''))
                       (Inr (''<LogLevel='' @ name @ ''>'')) [(''name'', VStr name)] None None"

definition objectWithMethod :: pyval where
  "objectWithMethod = VObj ''C'' (Inr ''<C>'') (Inr ''<C>'') [(''f'', lambda7)] None None"


section \<open>Notions used in the statements\<close>

text \<open>
  The calls that \<open>flattenEvent\<close> makes for one tuple of the parser when it does not
  skip it: it resolves the field name without its call suffix, and invokes the value when
  the name has the suffix.
\<close>

definition calls_of_segment :: "segment \<Rightarrow> effect list" where
  "calls_of_segment seg =
     (case seg of (literalText, fieldName, formatSpec, conversion) \<Rightarrow>
        (case fieldName of
           None \<Rightarrow> []
         | Some name \<Rightarrow>
             if endswith name ''()''
             then [Resolved (take (length name - 2) name), Invoked (take (length name - 2) name)]
             else [Resolved name]))"

text \<open>A reference with an empty format spec.\<close>

definition no_format_spec :: "segment \<Rightarrow> bool" where
  "no_format_spec seg =
     (case seg of (literalText, fieldName, formatSpec, conversion) \<Rightarrow> or_empty formatSpec = [])"

text \<open>
  A field name with no call suffix, on the whole name or on its first component; and a
  call-suffixed key: a name of the form \<open>key()\<close> where \<open>key\<close> has no \<open>.\<close> or \<open>[\<close> and
  is not a decimal numeral.
\<close>

definition call_free :: "string \<Rightarrow> bool" where
  "call_free name =
     (\<not> endswith name ''()'' \<and> \<not> endswith (takeWhile (\<lambda>c. \<not> is_sep c) name) ''()'')"

definition called_key :: "string \<Rightarrow> bool" where
  "called_key name =
     (endswith name ''()'' \<and> list_all (\<lambda>c. \<not> is_sep c) name
      \<and> get_integer (take (length name - 2) name) = Inr None)"

text \<open>
  A field whose value, as live rendering resolves it, formats with the empty format spec
  as its \<open>str\<close>. That holds for every value that has no \<open>__format__\<close> of its own.
\<close>

definition formats_as_str :: "runtime \<Rightarrow> event \<Rightarrow> string \<Rightarrow> bool" where
  "formats_as_str rt event name =
     (case get_field rt name (CallMapping_getitem event) of
        Inl e \<Rightarrow> True
      | Inr v \<Rightarrow> py_format rt v [] = py_str v)"

text \<open>
  The tuples of a template that the amended claim C2 is about: literal text alone, or a
  field reference with an empty format spec, such a field name, and a conversion that is
  \<open>s\<close> or \<open>r\<close>, or absent for a value that formats as its \<open>str\<close>.
\<close>

definition flattenable_segment :: "runtime \<Rightarrow> event \<Rightarrow> segment \<Rightarrow> bool" where
  "flattenable_segment rt event seg =
     (case seg of (literalText, fieldName, formatSpec, conversion) \<Rightarrow>
        or_empty formatSpec = []
        \<and> (case fieldName of
             None \<Rightarrow> True
           | Some name \<Rightarrow>
               (call_free name \<or> called_key name)
               \<and> (conversion = Some ''s'' \<or> conversion = Some ''r''
                  \<or> (conversion = None \<and> formats_as_str rt event name))))"

text \<open>
  Invariants of the loops, for the proofs: a canonical key with an empty format spec
  ends in a colon; every key of the dictionary built by \<open>flattenEvent\<close> was returned
  by its \<open>KeyFlattener\<close>; and the \<open>KeyFlattener\<close> of \<open>flatFormat\<close> has counted the
  stringified keys as the one of \<open>flattenEvent\<close> has.
\<close>

definition ends_colon :: "string \<Rightarrow> bool" where
  "ends_colon k = (k \<noteq> [] \<and> last k = CHR '':'')"

definition keys_issued :: "KeyFlattener \<Rightarrow> (string \<times> pyval) list \<Rightarrow> bool" where
  "keys_issued kf flds =
     (\<forall>k. dict_contains flds k \<longrightarrow> (\<exists>c i. ends_colon c \<and> k = nthKey c i \<and> i \<le> keys kf c))"

definition same_counts :: "KeyFlattener \<Rightarrow> KeyFlattener \<Rightarrow> bool" where
  "same_counts kfL kfF =
     (\<forall>fn c. c = ''s'' \<or> c = ''r'' \<longrightarrow>
        keys kfF (canonicalKey fn None (Some c)) = keys kfL (canonicalKey fn None (Some c)))"

section \<open>Properties of the KeyFlattener\<close>

lemma digit_char_inj: "a < 10 \<Longrightarrow> b < 10 \<Longrightarrow> digit_char a = digit_char b \<Longrightarrow> a = b"
proof -
  assume a: "a < 10" and b: "b < 10" and e: "digit_char a = digit_char b"
  have d: "distinct ''0123456789''" by simp
  have "a < length ''0123456789''" "b < length ''0123456789''" using a b by simp_all
  with d e show ?thesis unfolding digit_char_def by (simp only: nth_eq_iff_index_eq)
qed

lemma str_nat_nonempty: "str_nat n \<noteq> []"
  by (subst str_nat.simps) simp

lemma str_nat_last: "last (str_nat n) = digit_char (n mod 10)"
  by (subst str_nat.simps) simp

lemma str_nat_butlast: "butlast (str_nat n) = (if n < 10 then [] else str_nat (n div 10))"
  by (subst str_nat.simps) simp

lemma str_nat_inj: "str_nat a = str_nat b \<Longrightarrow> a = b"
proof (induction a arbitrary: b rule: str_nat.induct)
  case (1 n)
  from "1.prems" have l: "digit_char (n mod 10) = digit_char (b mod 10)"
    by (metis str_nat_last)
  then have m: "n mod 10 = b mod 10" by (intro digit_char_inj) simp_all
  from "1.prems" have bl: "butlast (str_nat n) = butlast (str_nat b)" by simp
  show ?case
  proof (cases "n < 10")
    case True
    with bl have "b < 10"
      using str_nat_nonempty[of "b div 10"] by (auto simp: str_nat_butlast split: if_splits)
    with True m show ?thesis by simp
  next
    case False
    with bl have b10: "\<not> b < 10" and e: "str_nat (n div 10) = str_nat (b div 10)"
      using str_nat_nonempty[of "n div 10"] by (auto simp: str_nat_butlast split: if_splits)
    from "1.IH"[OF False e] have "n div 10 = b div 10" .
    with m show ?thesis by (metis div_mult_mod_eq)
  qed
qed

lemma flatKey_count:
  "flatKey self f s c =
     (nthKey (canonicalKey f s c) (Suc (keys self (canonicalKey f s c))),
      self\<lparr> keys := (keys self)(canonicalKey f s c := Suc (keys self (canonicalKey f s c))) \<rparr>)"
  by (simp add: flatKey_def Let_def nthKey_def)

lemma flatKey_repeat_from:
  "flatKey_repeat n self f s c =
     map (nthKey (canonicalKey f s c))
       [Suc (keys self (canonicalKey f s c)) ..< Suc (keys self (canonicalKey f s c)) + n]"
proof (induction n arbitrary: self)
  case 0
  show ?case by simp
next
  case (Suc n)
  show ?case
    by (simp add: flatKey_count Suc.IH upt_rec[of "Suc (keys self (canonicalKey f s c))"] del: upt_Suc)
qed

lemma nthKey_inj: "nthKey k i = nthKey k j \<Longrightarrow> i = j"
  by (auto simp: nthKey_def dest: str_nat_inj split: if_splits)

text \<open>
  Claim C6. On a fresh \<open>KeyFlattener\<close>, the \<open>i\<close>-th of \<open>n\<close> successive calls of
  \<open>flatKey\<close> with the same field name, format spec and conversion returns the canonical
  key \<open>fieldName!conversion:formatSpec\<close> for \<open>i = 1\<close> and the canonical key followed by
  \<open>/i\<close> for \<open>i = 2, 3, ...\<close>; the keys returned are pairwise distinct. \<open>flatKey\<close> has
  no failing branch: it always returns a key.
\<close>

theorem flatKey_repeat_keys:
  "flatKey_repeat n KeyFlattener_init f s c =
     map (\<lambda>i. if i = 1 then canonicalKey f s c else canonicalKey f s c @ ''/'' @ str_nat i) [1 ..< Suc n]
   \<and> distinct (flatKey_repeat n KeyFlattener_init f s c)
   \<and> canonicalKey (Some fieldName) None None = fieldName @ ''!'' @ '':''
   \<and> canonicalKey (Some fieldName) (Some formatSpec) (Some conversion)
       = fieldName @ ''!'' @ conversion @ '':'' @ formatSpec"
proof -
  have k: "keys KeyFlattener_init (canonicalKey f s c) = 0" by (simp add: KeyFlattener_init_def)
  have e: "flatKey_repeat n KeyFlattener_init f s c = map (nthKey (canonicalKey f s c)) [1 ..< Suc n]"
    by (simp only: flatKey_repeat_from k) simp
  have "inj_on (nthKey (canonicalKey f s c)) (set [1 ..< Suc n])"
    by (rule inj_onI) (rule nthKey_inj)
  then have "distinct (map (nthKey (canonicalKey f s c)) [1 ..< Suc n])"
    by (simp only: distinct_map distinct_upt)
  with e show ?thesis by (simp add: nthKey_def[abs_def] canonicalKey_def or_empty_def)
qed

section \<open>The empty event, and \<open>formatTime\<close> without a time or a pattern\<close>

text \<open>
  Claim C10. The empty event has neither \<open>log_flattened\<close> nor \<open>log_format\<close>:
  \<open>formatEvent\<close> returns the empty text for it, and \<open>formatEventAsClassicLogText\<close>
  returns \<open>None\<close>, whatever time formatter it is given.
\<close>

theorem formatEvent_empty_event:
  "formatEvent rt [] = Inr [] \<and> formatEventAsClassicLogText rt [] formatTime' = Inr None"
  by (simp add: formatEvent_def formatEvent_try_def dict_contains_def dict_get_def
      formatEventAsClassicLogText_def)

text \<open>
  Claim C9. \<open>formatTime\<close> returns \<open>default\<close> when \<open>when\<close> is \<open>None\<close>, whatever the
  pattern, and when the pattern is \<open>None\<close>, whatever \<open>when\<close> is. The default pattern
  is the RFC 3339 form \<open>%Y-%m-%dT%H:%M:%S%z\<close> and the default fallback text is \<open>-\<close>, so
  that \<open>formatTime(None, anyPattern, default="-")\<close> is \<open>-\<close>.
\<close>

theorem formatTime_default_cases:
  "formatTime rt VNone timeFormat d = Inr d
   \<and> formatTime rt when None d = Inr d
   \<and> timeFormatRFC3339 = ''%Y-%m-%dT%H:%M:%S%z''
   \<and> formatTime_default rt when = formatTime rt when (Some ''%Y-%m-%dT%H:%M:%S%z'') ''-''
   \<and> formatTime rt VNone timeFormat ''-'' = Inr ''-''"
  by (simp add: formatTime_def formatTime_default_def timeFormatRFC3339_def split: option.splits)

section \<open>\<open>formatEvent\<close> never raises\<close>

text \<open>
  Claim C1. For every runtime and every event, \<open>formatEvent\<close> returns a text: it has no
  outcome that is an exception. This covers an event with no \<open>log_format\<close>, one whose
  \<open>log_format\<close> is neither text nor bytes, and fields whose resolution, \<open>str\<close> or
  \<open>repr\<close> raises. \<open>formatUnformattableEvent\<close> returns a text for every event and
  error, and whenever the body of \<open>formatEvent\<close> raises \<open>e\<close>, the result of
  \<open>formatEvent\<close> is that of \<open>formatUnformattableEvent(event, e)\<close>.
\<close>

theorem formatEvent_never_raises:
  "(\<exists>text. formatEvent rt event = Inr text)
   \<and> (\<exists>text. formatUnformattableEvent rt event error = Inr text)
   \<and> (\<forall>e. formatEvent_try rt event = Inl e \<longrightarrow>
          formatEvent rt event = formatUnformattableEvent rt event e)"
  by (auto simp: formatEvent_def formatUnformattableEvent_def split: sum.splits)

text \<open>
  The theorem at an event whose \<open>log_format\<close> is a number: the body raises
  \<open>TypeError\<close>, and the text returned is the first fallback message.
\<close>

theorem formatEvent_never_raises_witness:
  "formatEvent_try example_runtime [(''log_format'', VInt 3)]
     = Inl (TypeError ''Log format must be unicode or bytes, not 3'')
   \<and> formatEvent example_runtime [(''log_format'', VInt 3)]
     = Inr ''Unable to format event {'log_format': 3}: Log format must be unicode or bytes, not 3''"
proof -
  have t: "formatEvent_try example_runtime [(''log_format'', VInt 3)]
             = Inl (TypeError ''Log format must be unicode or bytes, not 3'')"
    by (simp add: formatEvent_try_def dict_contains_def dict_get_def str_int_def str_nat.simps
        digit_char_def)
  have u: "formatUnformattableEvent example_runtime [(''log_format'', VInt 3)]
             (TypeError ''Log format must be unicode or bytes, not 3'')
           = Inr ''Unable to format event {'log_format': 3}: Log format must be unicode or bytes, not 3''"
    by (simp add: formatUnformattableEvent_def unableToFormat_def str_int_def str_nat.simps
        digit_char_def repr_str_def repr_quote_def repr_char_def str_printable_def Let_def)
  from formatEvent_never_raises [of example_runtime "[(''log_format'', VInt 3)]"] t u
  show ?thesis by simp
qed

text \<open>
  When the first fallback message cannot be built either, here because the \<open>repr\<close> of a
  value of the event raises, the second message is returned.
\<close>

lemma formatEvent_message_lost:
  "formatEvent example_runtime
     [(''log_format'', VInt 3), (''a'', VObj ''Broken'' (Inr ''s'') (Inl (ValueError ''boom'')) [] None None)]
   = Inr (''MESSAGE LOST: unformattable object logged: <exception>'' @ [CHR 0x0A]
          @ ''Recoverable data: 'log_format' = 3, 'a' = <Broken instance with repr error>''
          @ [CHR 0x0A] @ ''Exception during formatting:'' @ [CHR 0x0A] @ ''[Failure instance]'')"
  by (simp add: formatEvent_def formatEvent_try_def dict_contains_def dict_get_def str_int_def
      str_nat.simps digit_char_def formatUnformattableEvent_def unableToFormat_def messageLost_def
      safe_repr_def example_runtime_def repr_str_def repr_quote_def repr_char_def
      str_printable_def Let_def)

section \<open>\<open>extractField\<close>\<close>

lemma parse_function_call:
  "parse ''{function()}'' = ([([], Some ''function()'', Some [], None)], None)"
  by (simp add: parse.simps markup_next_def parse_field_def is_brace_def)

lemma get_field_function:
  "get_field rt ''function'' kwargs = kwargs ''function''"
  by (simp add: get_field_def field_name_split_def is_sep_def get_integer_def decimal_value_def
      get_value_def get_field_rest.simps split: sum.splits)

text \<open>
  Claim C7 fails as stated. The event \<open>{"function": lambda: 7}\<close> has no
  \<open>log_format\<close>, so \<open>flattenEvent\<close> returns without storing \<open>log_flattened\<close>, and the
  lookup \<open>event["log_flattened"]\<close> raises \<open>KeyError\<close>.
\<close>

theorem extractField_without_log_format:
  "extractField example_runtime ''function()'' [(''function'', lambda7)]
     = Inl (KeyError (KStr ''log_flattened''))"
  by (simp add: extractField_def parse_function_call unpack_single_def flatKey_def Let_def
      dict_contains_def flattenEvent_def flattenEvent_calls_def dict_getitem_def)

text \<open>
  Claim C7, amended. \<open>extractField("function()", event)\<close> parses the expression as
  one field reference and computes its structured key \<open>function()!:\<close> (no conversion
  requested). When the event has no \<open>log_flattened\<close>, its \<open>log_format\<close> is the
  template \<open>{function()}\<close>, its \<open>function\<close> is callable and the \<open>str\<close> of the call's
  result is defined, it flattens the event and returns the result of the call, not the
  callable; the event is left flattened. When \<open>log_flattened\<close> is present, it does not
  flatten, and returns the value stored under that key.
\<close>

theorem extractField_function_call:
  "(map_of event ''log_flattened'' = None
      \<and> map_of event ''log_format'' = Some (VStr ''{function()}'')
      \<and> map_of event ''function'' = Some f \<and> py_call f = Inr v \<and> py_str v = Inr t \<longrightarrow>
    extractField rt ''function()'' event
      = Inr (v, AList.update ''log_flattened''
                  (VDict [(''function()!s:'', VStr t), (''function()!:'', v)]) event))
   \<and> (map_of event ''log_flattened'' = Some (VDict flattened)
      \<and> map_of flattened ''function()!:'' = Some v \<longrightarrow>
    extractField rt ''function()'' event = Inr (v, event))
   \<and> fst (flatKey KeyFlattener_init (Some ''function()'') (Some []) None) = ''function()!:''"
  by (simp add: extractField_def parse_function_call unpack_single_def flatKey_def Let_def
      dict_contains_def flattenEvent_def flattenEvent_calls_def dict_getitem_def parse_value_def
      canonicalKey_def or_empty_def KeyFlattener_init_def endswith_def get_field_function
      conversionFunction_def update_conv')

text \<open>
  The amended claim at \<open>{"log_format": "{function()}", "function": lambda: 7}\<close>, and
  at an event that is flattened already.
\<close>

theorem extractField_function_call_witness:
  "extractField example_runtime ''function()''
     [(''log_format'', VStr ''{function()}''), (''function'', lambda7)]
   = Inr (VInt 7, [(''log_format'', VStr ''{function()}''), (''function'', lambda7),
                   (''log_flattened'',
                    VDict [(''function()!s:'', VStr ''7''), (''function()!:'', VInt 7)])])
   \<and> extractField example_runtime ''function()''
     [(''log_flattened'', VDict [(''function()!s:'', VStr ''7''), (''function()!:'', VInt 7)])]
   = Inr (VInt 7,
          [(''log_flattened'', VDict [(''function()!s:'', VStr ''7''), (''function()!:'', VInt 7)])])"
  using extractField_function_call
    [where event = "[(''log_format'', VStr ''{function()}''), (''function'', lambda7)]"
       and f = lambda7 and v = "VInt 7" and t = "''7''" and rt = example_runtime]
    extractField_function_call
    [where event = "[(''log_flattened'',
                      VDict [(''function()!s:'', VStr ''7''), (''function()!:'', VInt 7)])]"
       and flattened = "[(''function()!s:'', VStr ''7''), (''function()!:'', VInt 7)]"
       and v = "VInt 7" and rt = example_runtime]
  by (simp add: lambda7_def str_int_def str_nat.simps digit_char_def)

section \<open>Unrecognised conversions\<close>

lemma parse_Nil: "parse [] = ([], None)"
  by (simp add: parse.simps)

lemma parse_x_ascii: "parse ''{x!a}'' = ([([], Some ''x'', Some [], Some ''a'')], None)"
  by (simp add: parse.simps markup_next_def parse_field_def is_brace_def conversion_of_def)

lemma get_field_x: "get_field rt ''x'' kwargs = kwargs ''x''"
  by (simp add: get_field_def field_name_split_def is_sep_def get_integer_def decimal_value_def
      get_value_def get_field_rest.simps split: sum.splits)

text \<open>
  Claim C5 does not hold of the code. For the reference \<open>{x!a}\<close>, \<open>flattenEvent\<close>
  replaces the conversion by \<open>s\<close> and stores the keys \<open>x!s:\<close> and \<open>x!:\<close>, while
  \<open>flatFormat\<close> keeps the conversion (\<open>conversion or "s"\<close>) and looks up \<open>x!a:\<close>, which
  is not in \<open>log_flattened\<close>: it raises \<open>KeyError\<close>. The unflattened event renders as
  \<open>5\<close>.
\<close>

theorem flatFormat_unrecognised_conversion:
  "flattenEvent example_runtime [(''log_format'', VStr ''{x!a}''), (''x'', VInt 5)]
     = Inr [(''log_format'', VStr ''{x!a}''), (''x'', VInt 5),
            (''log_flattened'', VDict [(''x!s:'', VStr ''5''), (''x!:'', VInt 5)])]
   \<and> flatFormat [(''log_format'', VStr ''{x!a}''), (''x'', VInt 5),
                  (''log_flattened'', VDict [(''x!s:'', VStr ''5''), (''x!:'', VInt 5)])]
     = Inl (KeyError (KStr ''x!a:''))
   \<and> fst (flatKey KeyFlattener_init (Some ''x'') (Some []) (Some (or_s (Some ''a'')))) = ''x!a:''
   \<and> formatEvent example_runtime [(''log_format'', VStr ''{x!a}''), (''x'', VInt 5)] = Inr ''5''"
proof -
  have a: "flattenEvent example_runtime [(''log_format'', VStr ''{x!a}''), (''x'', VInt 5)]
     = Inr [(''log_format'', VStr ''{x!a}''), (''x'', VInt 5),
            (''log_flattened'', VDict [(''x!s:'', VStr ''5''), (''x!:'', VInt 5)])]"
    by (simp add: flattenEvent_def flattenEvent_calls_def dict_contains_def dict_getitem_def
        parse_value_def parse_x_ascii flatKey_def Let_def canonicalKey_def or_empty_def
        KeyFlattener_init_def endswith_def get_field_x conversionFunction_def
        str_int_def str_nat.simps digit_char_def)
  have b: "flatFormat [(''log_format'', VStr ''{x!a}''), (''x'', VInt 5),
                  (''log_flattened'', VDict [(''x!s:'', VStr ''5''), (''x!:'', VInt 5)])]
     = Inl (KeyError (KStr ''x!a:''))"
    by (simp add: flatFormat_def dict_getitem_def parse_value_def parse_x_ascii flatKey_def
        Let_def canonicalKey_def or_empty_def KeyFlattener_init_def or_s_def)
  have c: "fst (flatKey KeyFlattener_init (Some ''x'') (Some []) (Some (or_s (Some ''a'')))) = ''x!a:''"
    by (simp add: flatKey_def Let_def canonicalKey_def or_empty_def KeyFlattener_init_def or_s_def)
  have d: "formatEvent example_runtime [(''log_format'', VStr ''{x!a}''), (''x'', VInt 5)] = Inr ''5''"
    by (simp add: formatEvent_def formatEvent_try_def dict_contains_def dict_get_def
        formatWithCall_def vformat_def numeral_3_eq_3 parse_x_ascii py_isdigit_def get_field_x
        CallMapping_getitem_def endswith_def dict_getitem_def convert_field_def py_ascii_def
        str_int_def str_nat.simps digit_char_def parse_Nil format_field_def py_format_def Let_def
        or_empty_def)
  from a b c d show ?thesis by simp
qed

section \<open>Evaluating the examples\<close>

text \<open>The definitions that the evaluation of a concrete example unfolds.\<close>

lemmas eval_keys = flatKey_def Let_def canonicalKey_def or_empty_def KeyFlattener_init_def or_s_def
lemmas eval_parse = parse.simps markup_next_def parse_field_def is_brace_def conversion_of_def
lemmas eval_field = get_field_def field_name_split_def is_sep_def get_integer_def decimal_value_def
  get_value_def get_field_rest.simps field_name_next_def PY_SSIZE_T_MAX_def
lemmas eval_str = str_int_def str_nat.simps digit_char_def repr_str_def repr_quote_def repr_char_def
  str_printable_def
lemmas eval_flatten = flattenEvent_def flattenEvent_calls_def dict_contains_def dict_getitem_def
  parse_value_def endswith_def conversionFunction_def
lemmas eval_live = formatEvent_def formatEvent_try_def dict_get_def formatWithCall_def vformat_def
  numeral_3_eq_3 numeral_2_eq_2 py_isdigit_def CallMapping_getitem_def convert_field_def
  format_field_def py_format_def

lemma py_format_VStr: "py_format rt (VStr t) [] = Inr t"
  by (simp add: py_format_def)



section \<open>The keys of one pass are distinct\<close>

text \<open>
  With an empty format spec a canonical key ends in a colon, and the key of an
  occurrence, the canonical key with or without its \<open>/N\<close> suffix, determines both the
  canonical key and the number of the occurrence. So the keys that one
  \<open>KeyFlattener\<close> returns never repeat, and the key of a new occurrence is not yet in
  the dictionary that \<open>flattenEvent\<close> builds.
\<close>

lemma digit_char_mem: "d < 10 \<Longrightarrow> digit_char d \<in> set ''0123456789''"
  unfolding digit_char_def by (rule nth_mem) simp

lemma str_nat_digits: "set (str_nat n) \<subseteq> set ''0123456789''"
proof (induction n rule: str_nat.induct)
  case (1 n)
  show ?case
  proof (cases "n < 10")
    case True
    then show ?thesis using digit_char_mem[of n] by (subst str_nat.simps) simp
  next
    case False
    have "n mod 10 < 10" by simp
    from digit_char_mem[OF this] "1.IH"[OF False] False show ?thesis
      by (subst str_nat.simps) simp
  qed
qed

lemma split_unique:
  "a @ c # x = b @ c # y \<Longrightarrow> c \<notin> set x \<Longrightarrow> c \<notin> set y \<Longrightarrow> a = b \<and> x = y"
  by (induction a arbitrary: b) (auto simp: Cons_eq_append_conv append_eq_Cons_conv)

lemma nthKey_eq:
  assumes "ends_colon a" "ends_colon b" "nthKey a i = nthKey b j"
  shows "a = b \<and> i = j"
proof -
  have nd: "\<And>n. CHR ''/'' \<notin> set (str_nat n)" using str_nat_digits by fastforce
  have nl: "\<And>n c. last (c @ ''/'' @ str_nat n) \<noteq> CHR '':''"
  proof -
    fix n c
    have "last (c @ ''/'' @ str_nat n) = last (str_nat n)" using str_nat_nonempty by simp
    moreover have "last (str_nat n) \<in> set (str_nat n)" using str_nat_nonempty by simp
    ultimately show "last (c @ ''/'' @ str_nat n) \<noteq> CHR '':''"
      using str_nat_digits[of n] by auto
  qed
  show ?thesis
  proof (cases "i = 1")
    case i1: True
    show ?thesis
    proof (cases "j = 1")
      case True
      with i1 assms show ?thesis by (simp add: nthKey_def)
    next
      case False
      with i1 assms(3) have "a = b @ ''/'' @ str_nat j" by (simp add: nthKey_def)
      with nl[of b j] assms(1) show ?thesis by (simp add: ends_colon_def)
    qed
  next
    case i1: False
    show ?thesis
    proof (cases "j = 1")
      case True
      with i1 assms(3) have "b = a @ ''/'' @ str_nat i" by (simp add: nthKey_def)
      with nl[of a i] assms(2) show ?thesis by (simp add: ends_colon_def)
    next
      case False
      with i1 assms(3) have "a @ CHR ''/'' # str_nat i = b @ CHR ''/'' # str_nat j"
        by (simp add: nthKey_def)
      from split_unique[OF this nd nd] show ?thesis by (auto dest: str_nat_inj)
    qed
  qed
qed

lemma canonicalKey_ends_colon: "or_empty spec = [] \<Longrightarrow> ends_colon (canonicalKey fn spec conv)"
  by (simp add: canonicalKey_def ends_colon_def)

lemma canonicalKey_conv_inj:
  assumes "or_empty spec = []" "or_empty spec' = []"
    and "canonicalKey fn spec (Some c) = canonicalKey fn' spec' (Some c')"
    and "c = ''s'' \<or> c = ''r'' \<or> c = []" "c' = ''s'' \<or> c' = ''r'' \<or> c' = []"
  shows "c = c'"
  using assms by (auto simp: canonicalKey_def or_empty_def append_eq_append_conv2 Cons_eq_append_conv append_eq_Cons_conv)

lemma map_of_update_other:
  "k' \<noteq> k \<Longrightarrow> map_of (AList.update k v al) k' = map_of al k'"
  by (simp add: update_conv')

lemma map_of_update_same: "map_of (AList.update k v al) k = Some v"
  by (simp add: update_conv')

lemma dict_contains_map_of: "map_of al k = Some v \<Longrightarrow> dict_contains al k"
  by (simp add: dict_contains_def)

lemma dict_contains_update:
  "dict_contains (AList.update k v flds) k' = (k' = k \<or> dict_contains flds k')"
  by (simp add: dict_contains_def update_conv' split: option.splits)

lemma keys_issued_fresh:
  assumes "keys_issued kf flds" "ends_colon c" "keys kf c < i"
  shows "\<not> dict_contains flds (nthKey c i)"
proof
  assume "dict_contains flds (nthKey c i)"
  with assms(1) obtain c' j where "ends_colon c'" "nthKey c i = nthKey c' j" "j \<le> keys kf c'"
    unfolding keys_issued_def by blast
  with nthKey_eq[OF assms(2) this(1) this(2)] assms(3) show False by simp
qed

lemma keys_issued_step:
  assumes "keys_issued kf flds" "ends_colon c1" "ends_colon c2"
  shows "keys_issued
           (kf\<lparr>keys := ((keys kf)(c1 := Suc (keys kf c1)))
                          (c2 := Suc (((keys kf)(c1 := Suc (keys kf c1))) c2))\<rparr>)
           (AList.update (nthKey c2 (Suc (((keys kf)(c1 := Suc (keys kf c1))) c2))) v2
              (AList.update (nthKey c1 (Suc (keys kf c1))) v1 flds))"
  unfolding keys_issued_def
proof (intro allI impI)
  fix k
  let ?kf2 = "kf\<lparr>keys := ((keys kf)(c1 := Suc (keys kf c1)))
                          (c2 := Suc (((keys kf)(c1 := Suc (keys kf c1))) c2))\<rparr>"
  assume "dict_contains (AList.update (nthKey c2 (Suc (((keys kf)(c1 := Suc (keys kf c1))) c2))) v2
              (AList.update (nthKey c1 (Suc (keys kf c1))) v1 flds)) k"
  then consider "k = nthKey c2 (Suc (((keys kf)(c1 := Suc (keys kf c1))) c2))"
    | "k = nthKey c1 (Suc (keys kf c1))" | "dict_contains flds k"
    by (auto simp: dict_contains_update)
  then show "\<exists>c i. ends_colon c \<and> k = nthKey c i \<and> i \<le> keys ?kf2 c"
  proof cases
    case 1
    then show ?thesis using assms(3) by (intro exI[of _ c2] exI[of _ "Suc (((keys kf)(c1 := Suc (keys kf c1))) c2)"]) simp
  next
    case 2
    then show ?thesis using assms(2) by (intro exI[of _ c1] exI[of _ "Suc (keys kf c1)"]) simp
  next
    case 3
    with assms(1) obtain c i where "ends_colon c" "k = nthKey c i" "i \<le> keys kf c"
      unfolding keys_issued_def by blast
    then show ?thesis by (intro exI[of _ c] exI[of _ i]) auto
  qed
qed

text \<open>One step of the loop of \<open>flattenEvent\<close>, for a reference whose key is new.\<close>

lemma flattenEvent_loop_fresh:
  assumes "\<not> dict_contains flds (nthKey (canonicalKey (Some name) spec (Some (if conv \<noteq> Some ''r'' then ''s'' else ''r'')))
             (Suc (keys kf (canonicalKey (Some name) spec (Some (if conv \<noteq> Some ''r'' then ''s'' else ''r''))))))"
  shows "flattenEvent_loop rt event kf flds calls ((lit, Some name, spec, conv) # segs) err =
     (let c = (if conv \<noteq> Some ''r'' then ''s'' else ''r'');
          c1 = canonicalKey (Some name) spec (Some c);
          c2 = canonicalKey (Some name) spec (Some []);
          keys1 = (keys kf)(c1 := Suc (keys kf c1));
          callit = endswith name ''()'';
          name' = (if callit then take (length name - 2) name else name)
      in case get_field rt name' (dict_getitem event) of
           Inl e \<Rightarrow> Inl e
         | Inr v0 \<Rightarrow>
             (case (if callit then py_call v0 else Inr v0) of
                Inl e \<Rightarrow> Inl e
              | Inr v \<Rightarrow>
                  (case conversionFunction c v of
                     Inl e \<Rightarrow> Inl e
                   | Inr fv \<Rightarrow>
                       flattenEvent_loop rt event
                         (kf\<lparr>keys := keys1(c2 := Suc (keys1 c2))\<rparr>)
                         (AList.update (nthKey c2 (Suc (keys1 c2))) v
                            (AList.update (nthKey c1 (Suc (keys kf c1))) fv flds))
                         (calls @ Resolved name' # (if callit then [Invoked name'] else []))
                         segs err)))"
  using assms by (simp add: flatKey_count Let_def split: sum.splits)

lemma flattenEvent_loop_calls:
  assumes "keys_issued kf flds" "list_all no_format_spec segs"
    and "flattenEvent_loop rt event kf flds calls segs err = Inr (F, C)"
  shows "C = calls @ concat (map calls_of_segment segs)"
  using assms
proof (induction segs arbitrary: kf flds calls)
  case Nil
  then show ?case by (simp split: option.splits)
next
  case (Cons seg segs)
  obtain lit fn spec conv where seg: "seg = (lit, fn, spec, conv)" by (cases seg)
  from Cons.prems(2) have rest: "list_all no_format_spec segs" by simp
  from Cons.prems(2) seg have sp: "or_empty spec = []" by (simp add: no_format_spec_def)
  let ?c = "if conv \<noteq> Some ''r'' then ''s'' else ''r''"
  let ?c1 = "canonicalKey fn spec (Some ?c)"
  let ?c2 = "canonicalKey fn spec (Some [])"
  have e1: "ends_colon ?c1" and e2: "ends_colon ?c2" using sp by (simp_all add: canonicalKey_ends_colon)
  have fresh: "\<not> dict_contains flds (nthKey ?c1 (Suc (keys kf ?c1)))"
    by (rule keys_issued_fresh[OF Cons.prems(1) e1]) simp
  show ?case
  proof (cases fn)
    case None
    with Cons.prems(3) seg fresh show ?thesis by (simp add: flatKey_count Let_def)
  next
    case (Some name)
    note step = flattenEvent_loop_fresh[of flds name spec conv kf rt event calls lit segs err]
    from fresh Some have fr: "\<not> dict_contains flds (nthKey (canonicalKey (Some name) spec (Some ?c))
             (Suc (keys kf (canonicalKey (Some name) spec (Some ?c)))))" by simp
    let ?keys1 = "(keys kf)(?c1 := Suc (keys kf ?c1))"
    let ?callit = "endswith name ''()''"
    let ?name' = "if ?callit then take (length name - 2) name else name"
    from Cons.prems(3) seg Some step[OF fr]
    obtain v fv where
      loop: "flattenEvent_loop rt event (kf\<lparr>keys := ?keys1(?c2 := Suc (?keys1 ?c2))\<rparr>)
               (AList.update (nthKey ?c2 (Suc (?keys1 ?c2))) v
                  (AList.update (nthKey ?c1 (Suc (keys kf ?c1))) fv flds))
               (calls @ Resolved ?name' # (if ?callit then [Invoked ?name'] else []))
               segs err = Inr (F, C)"
      by (auto simp: Let_def split: sum.splits if_splits)
    have inv: "keys_issued (kf\<lparr>keys := ?keys1(?c2 := Suc (?keys1 ?c2))\<rparr>)
               (AList.update (nthKey ?c2 (Suc (?keys1 ?c2))) v
                  (AList.update (nthKey ?c1 (Suc (keys kf ?c1))) fv flds))"
      by (rule keys_issued_step[OF Cons.prems(1) e1 e2])
    from Cons.IH[OF inv rest loop] seg Some show ?thesis
      by (simp add: calls_of_segment_def)
  qed
qed

section \<open>\<open>flattenEvent\<close> resolves every occurrence\<close>

lemma parse_call_twice:
  "parse ''{x()} {x()}'' =
     ([([], Some ''x()'', Some [], None), ('' '', Some ''x()'', Some [], None)], None)"
  by (simp add: eval_parse)

text \<open>
  Claim C4 fails as stated. In the template \<open>{x()} {x()}\<close> the same field name, format
  spec and conversion occur twice. \<open>flatKey\<close> gives the second occurrence the key
  \<open>x()!s:/2\<close>, which is not in the accumulated dictionary, so the field is resolved a
  second time and the callable is invoked a second time.
\<close>

theorem flattenEvent_invokes_repeated_field_again:
  "flattenEvent_calls example_runtime [(''log_format'', VStr ''{x()} {x()}''), (''x'', lambda7)]
     = Inr ([(''log_format'', VStr ''{x()} {x()}''), (''x'', lambda7),
             (''log_flattened'',
              VDict [(''x()!s:'', VStr ''7''), (''x()!:'', VInt 7),
                     (''x()!s:/2'', VStr ''7''), (''x()!:/2'', VInt 7)])],
            [Resolved ''x'', Invoked ''x'', Resolved ''x'', Invoked ''x''])"
  by (simp add: eval_flatten parse_call_twice eval_keys get_field_x lambda7_def eval_str)

text \<open>
  Claim C4, amended. In the loop of \<open>flattenEvent\<close>, an occurrence whose flattened key
  is already in the accumulated dictionary is skipped entirely: the loop goes on with the
  same dictionary and the same calls, so nothing is resolved, invoked or stored for it.
  An occurrence is not skipped because its field name, format spec and conversion
  occurred before: \<open>flatKey\<close> suffixes the key of a repeated combination with \<open>/N\<close>.
  When the references of the template have empty format specs and \<open>flattenEvent\<close>
  returns, it has resolved every occurrence once, in the order of the template, and
  invoked every occurrence that has the call suffix once.
\<close>

theorem flattenEvent_resolves_each_occurrence:
  "(dict_contains flds (fst (flatKey kf fn spec (Some (if conv \<noteq> Some ''r'' then ''s'' else ''r'')))) \<longrightarrow>
      flattenEvent_loop rt event kf flds calls ((lit, fn, spec, conv) # segs) err
        = flattenEvent_loop rt event
            (snd (flatKey (snd (flatKey kf fn spec (Some (if conv \<noteq> Some ''r'' then ''s'' else ''r''))))
                    fn spec (Some [])))
            flds calls segs err)
   \<and> (map_of event ''log_format'' = Some (VStr T) \<and> list_all no_format_spec (fst (parse T))
        \<and> flattenEvent_calls rt event = Inr (event', calls') \<longrightarrow>
      calls' = concat (map calls_of_segment (fst (parse T))))"
proof (intro conjI impI)
  assume "dict_contains flds (fst (flatKey kf fn spec (Some (if conv \<noteq> Some ''r'' then ''s'' else ''r''))))"
  then show "flattenEvent_loop rt event kf flds calls ((lit, fn, spec, conv) # segs) err
        = flattenEvent_loop rt event
            (snd (flatKey (snd (flatKey kf fn spec (Some (if conv \<noteq> Some ''r'' then ''s'' else ''r''))))
                    fn spec (Some [])))
            flds calls segs err"
    by (cases "flatKey kf fn spec (Some (if conv \<noteq> Some ''r'' then ''s'' else ''r''))";
        cases "flatKey (snd (flatKey kf fn spec (Some (if conv \<noteq> Some ''r'' then ''s'' else ''r''))))
                 fn spec (Some [])")
      (simp add: Let_def)
next
  assume a: "map_of event ''log_format'' = Some (VStr T) \<and> list_all no_format_spec (fst (parse T))
        \<and> flattenEvent_calls rt event = Inr (event', calls')"
  then have c: "dict_contains event ''log_format''" by (intro dict_contains_map_of) simp
  from a c obtain F where
    "flattenEvent_loop rt event KeyFlattener_init [] [] (fst (parse T)) (snd (parse T)) = Inr (F, calls')"
    by (auto simp: flattenEvent_calls_def dict_getitem_def parse_value_def split: sum.splits prod.splits)
  from flattenEvent_loop_calls[OF _ _ this] a
  show "calls' = concat (map calls_of_segment (fst (parse T)))"
    by (simp add: keys_issued_def dict_contains_def)
qed

text \<open>
  A key can be present only through a format spec that looks like a suffix: in
  \<open>{x:/2}{x}{x}\<close> the first reference stores \<open>x!s:/2\<close>, which is the key of the third
  one, and the third reference is skipped.
\<close>

lemma parse_collision:
  "parse ''{x:/2}{x}{x}'' =
     ([([], Some ''x'', Some ''/2'', None), ([], Some ''x'', Some [], None),
       ([], Some ''x'', Some [], None)], None)"
  by (simp add: eval_parse)

lemma flattenEvent_skips_present_key:
  "flattenEvent_calls example_runtime [(''log_format'', VStr ''{x:/2}{x}{x}''), (''x'', VInt 5)]
     = Inr ([(''log_format'', VStr ''{x:/2}{x}{x}''), (''x'', VInt 5),
             (''log_flattened'',
              VDict [(''x!s:/2'', VStr ''5''), (''x!:/2'', VInt 5),
                     (''x!s:'', VStr ''5''), (''x!:'', VInt 5)])],
            [Resolved ''x'', Resolved ''x''])"
  by (simp add: eval_flatten parse_collision eval_keys get_field_x eval_str)

text \<open>
  The amended claim at a dictionary that holds the key of the next reference, and at
  the template \<open>{x} {x} {x!r}\<close>, whose three references are resolved one by one.
\<close>

lemma parse_x_x_xr:
  "parse ''{x} {x} {x!r}'' =
     ([([], Some ''x'', Some [], None), ('' '', Some ''x'', Some [], None),
       ('' '', Some ''x'', Some [], Some ''r'')], None)"
  by (simp add: eval_parse)


theorem flattenEvent_resolves_each_occurrence_witness:
  "flattenEvent_loop example_runtime [(''x'', VInt 5)] KeyFlattener_init [(''x!s:'', VStr ''5'')] []
      [([], Some ''x'', Some [], None)] None = Inr ([(''x!s:'', VStr ''5'')], [])
   \<and> flattenEvent_calls example_runtime [(''log_format'', VStr ''{x} {x} {x!r}''), (''x'', VInt 5)]
       = Inr ([(''log_format'', VStr ''{x} {x} {x!r}''), (''x'', VInt 5),
               (''log_flattened'',
                VDict [(''x!s:'', VStr ''5''), (''x!:'', VInt 5), (''x!s:/2'', VStr ''5''),
                       (''x!:/2'', VInt 5), (''x!r:'', VStr ''5''), (''x!:/3'', VInt 5)])],
              [Resolved ''x'', Resolved ''x'', Resolved ''x''])
   \<and> concat (map calls_of_segment (fst (parse ''{x} {x} {x!r}'')))
       = [Resolved ''x'', Resolved ''x'', Resolved ''x'']"
proof -
  let ?ev = "[(''log_format'', VStr ''{x} {x} {x!r}''), (''x'', VInt 5)]"
  let ?ev' = "[(''log_format'', VStr ''{x} {x} {x!r}''), (''x'', VInt 5),
               (''log_flattened'',
                VDict [(''x!s:'', VStr ''5''), (''x!:'', VInt 5), (''x!s:/2'', VStr ''5''),
                       (''x!:/2'', VInt 5), (''x!r:'', VStr ''5''), (''x!:/3'', VInt 5)])]"
  have k: "dict_contains [(''x!s:'', VStr ''5'')]
             (fst (flatKey KeyFlattener_init (Some ''x'') (Some [])
                     (Some (if None \<noteq> Some ''r'' then ''s'' else ''r''))))"
    by (simp add: eval_keys dict_contains_def)
  have a: "flattenEvent_loop example_runtime [(''x'', VInt 5)] KeyFlattener_init [(''x!s:'', VStr ''5'')] []
      [([], Some ''x'', Some [], None)] None = Inr ([(''x!s:'', VStr ''5'')], [])"
    using flattenEvent_resolves_each_occurrence
      [where flds = "[(''x!s:'', VStr ''5'')]" and kf = KeyFlattener_init and fn = "Some ''x''"
         and spec = "Some []" and conv = None and rt = example_runtime
         and event = "[(''x'', VInt 5)]" and calls = "[]" and lit = "[]" and segs = "[]"
         and err = None] k
    by simp
  have c: "concat (map calls_of_segment (fst (parse ''{x} {x} {x!r}'')))
       = [Resolved ''x'', Resolved ''x'', Resolved ''x'']"
    by (simp add: parse_x_x_xr calls_of_segment_def endswith_def)
  have h: "list_all no_format_spec (fst (parse ''{x} {x} {x!r}''))"
    by (simp add: parse_x_x_xr no_format_spec_def or_empty_def)
  obtain calls where f: "flattenEvent_calls example_runtime ?ev = Inr (?ev', calls)"
    by (simp add: eval_flatten parse_x_x_xr eval_keys get_field_x eval_str)
  have m: "map_of ?ev ''log_format'' = Some (VStr ''{x} {x} {x!r}'')" by simp
  from flattenEvent_resolves_each_occurrence
      [where rt = example_runtime and event = "?ev" and T = "''{x} {x} {x!r}''"
         and event' = "?ev'" and calls' = calls] m h f c
  have "calls = [Resolved ''x'', Resolved ''x'', Resolved ''x'']" by simp
  with a f c show ?thesis by simp
qed

section \<open>Flattened rendering and live rendering\<close>

text \<open>
  The two ways of resolving a field name agree when it has no call suffix (neither the
  whole name nor its first component ends in \<open>()\<close>), and when it is a call-suffixed key
  of the event: live rendering strips the suffix from the first component of the name
  (\<open>CallMapping\<close>), \<open>flattenEvent\<close> from the whole name.
\<close>

lemma canonicalKey_spec_empty:
  "or_empty spec = [] \<Longrightarrow> canonicalKey fn spec c = canonicalKey fn None c"
  by (simp add: canonicalKey_def or_empty_def)

lemma get_integer_from_append:
  "get_integer_from acc k = Inr None \<Longrightarrow> get_integer_from acc (k @ x) = Inr None"
  by (induction acc k rule: get_integer_from.induct) (auto split: option.splits if_splits)

lemma endswith_split: "endswith name suffix \<Longrightarrow> name = take (length name - length suffix) name @ suffix"
  unfolding endswith_def by (metis append_take_drop_id)

lemma takeWhile_all: "list_all P xs \<Longrightarrow> takeWhile P xs = xs"
  by (induction xs) auto

lemma dropWhile_all: "list_all P xs \<Longrightarrow> dropWhile P xs = []"
  by (induction xs) auto

lemma get_field_rest_Nil: "get_field_rest rt obj [] = Inr obj"
  by (simp add: get_field_rest.simps)

lemma resolve_call_free:
  assumes "call_free name"
  shows "get_field rt name (CallMapping_getitem event) = get_field rt name (dict_getitem event)"
proof -
  let ?first = "takeWhile (\<lambda>c. \<not> is_sep c) name"
  from assms have "\<not> endswith ?first ''()''" by (simp add: call_free_def)
  then have "CallMapping_getitem event ?first = dict_getitem event ?first"
    by (simp add: CallMapping_getitem_def Let_def split: sum.splits)
  then have gv: "\<And>first rest. field_name_split name = Inr (first, rest) \<Longrightarrow>
      get_value first (CallMapping_getitem event) = get_value first (dict_getitem event)"
    by (auto simp: field_name_split_def Let_def get_value_def split: sum.splits option.splits)
  show ?thesis
  proof (cases "field_name_split name")
    case (Inl e)
    then show ?thesis by (simp add: get_field_def)
  next
    case (Inr p)
    obtain first rest where p: "p = (first, rest)" by (cases p)
    with Inr gv[of first rest] show ?thesis by (simp add: get_field_def)
  qed
qed

lemma resolve_called_key:
  assumes "called_key name"
  shows "get_field rt name (CallMapping_getitem event) =
           (case get_field rt (take (length name - 2) name) (dict_getitem event) of
              Inl e \<Rightarrow> Inl e | Inr v0 \<Rightarrow> py_call v0)"
proof -
  let ?k = "take (length name - 2) name"
  from assms have ends: "endswith name ''()''" and nosep: "list_all (\<lambda>c. \<not> is_sep c) name"
    and gi: "get_integer ?k = Inr None" by (simp_all add: called_key_def)
  from endswith_split[OF ends] have nm: "name = ?k @ ''()''" by (simp add: numeral_2_eq_2)
  have gin: "get_integer name = Inr None"
  proof (cases "?k = []")
    case True
    with nm have "name = ''()''" by simp
    then show ?thesis by (simp add: get_integer_def decimal_value_def)
  next
    case False
    with gi have "get_integer_from 0 ?k = Inr None" by (simp add: get_integer_def)
    from get_integer_from_append[OF this, of "''()''"] nm have "get_integer_from 0 name = Inr None"
      by simp
    then show ?thesis by (simp add: get_integer_def)
  qed
  from nosep nm have nosepk: "list_all (\<lambda>c. \<not> is_sep c) ?k"
    by (metis list_all_append)
  have l: "get_field rt name (CallMapping_getitem event) = CallMapping_getitem event name"
    by (simp add: get_field_def field_name_split_def Let_def takeWhile_all[OF nosep]
        dropWhile_all[OF nosep] gin get_value_def get_field_rest_Nil split: sum.splits)
  have r: "get_field rt ?k (dict_getitem event) = dict_getitem event ?k"
    by (simp add: get_field_def field_name_split_def Let_def takeWhile_all[OF nosepk]
        dropWhile_all[OF nosepk] gi get_value_def get_field_rest_Nil split: sum.splits)
  show ?thesis using ends by (simp add: l r CallMapping_getitem_def Let_def split: sum.splits)
qed

lemma resolve_agree:
  assumes "call_free name \<or> called_key name"
  shows "get_field rt name (CallMapping_getitem event) =
           (case get_field rt (if endswith name ''()'' then take (length name - 2) name else name)
                   (dict_getitem event) of
              Inl e \<Rightarrow> Inl e
            | Inr v0 \<Rightarrow> if endswith name ''()'' then py_call v0 else Inr v0)"
proof (cases "endswith name ''()''")
  case True
  with assms have "called_key name" by (auto simp: call_free_def)
  from resolve_called_key[OF this] True show ?thesis by (simp split: sum.splits)
next
  case False
  with assms have "call_free name" by (auto simp: called_key_def)
  from resolve_call_free[OF this] False show ?thesis by (simp split: sum.splits)
qed

lemma convert_agree:
  assumes "conv = None \<or> conv = Some ''s'' \<or> conv = Some ''r''"
    and "conv = None \<Longrightarrow> py_format rt v [] = py_str v"
    and "convert_field v conv = Inr v'" and "format_field rt v' [] = Inr t"
  shows "conversionFunction (if conv \<noteq> Some ''r'' then ''s'' else ''r'') v = Inr (VStr t)"
  using assms
  by (auto simp: convert_field_def conversionFunction_def format_field_def py_format_VStr
      split: sum.splits)

lemma or_s_conv:
  "conv = None \<or> conv = Some ''s'' \<or> conv = Some ''r'' \<Longrightarrow>
   or_s conv = (if conv \<noteq> Some ''r'' then ''s'' else ''r'')"
  by (auto simp: or_s_def)

lemma decimal_value_digit: "c \<in> set ''0123456789'' \<Longrightarrow> decimal_value c \<noteq> None"
  by (auto simp: decimal_value_def)

lemma get_integer_from_digits:
  "set s \<subseteq> set ''0123456789'' \<Longrightarrow> get_integer_from acc s \<noteq> Inr None"
proof (induction s arbitrary: acc)
  case Nil
  show ?case by simp
next
  case (Cons c cs)
  from Cons.prems have "decimal_value c \<noteq> None" by (intro decimal_value_digit) simp
  then obtain d where d: "decimal_value c = Some d" by blast
  from Cons.prems have "set cs \<subseteq> set ''0123456789''" by simp
  from Cons.IH[OF this] d show ?case by simp
qed

lemma get_field_numeral_fails: "get_field rt (str_nat n) kwargs \<noteq> Inr obj"
proof -
  have nosep: "list_all (\<lambda>c. \<not> is_sep c) (str_nat n)"
    using str_nat_digits[of n] by (auto simp: list_all_iff is_sep_def)
  have "get_integer (str_nat n) \<noteq> Inr None"
    using get_integer_from_digits[OF str_nat_digits, of 0 n] str_nat_nonempty[of n]
    by (simp add: get_integer_def)
  then show ?thesis
    by (auto simp: get_field_def field_name_split_def Let_def takeWhile_all[OF nosep]
        get_value_def split: sum.splits option.splits)
qed

text \<open>
  A successful step of the loop of \<open>_vformat\<close> on a reference with an empty format
  spec.
\<close>

lemma vformat_loop_field:
  assumes "vformat_loop expand rt kwargs result auto ((lit, Some name, spec, conv) # segs) err
             = Inr (text, auto')"
    and "or_empty spec = []"
    and "\<And>a. expand [] a = Inr ([], a)"
  shows "\<exists>obj obj' t auto1.
           get_field rt name kwargs = Inr obj \<and> convert_field obj conv = Inr obj'
           \<and> format_field rt obj' [] = Inr t
           \<and> vformat_loop expand rt kwargs (result @ lit @ t) auto1 segs err = Inr (text, auto')"
proof (cases "name = []")
  case True
  with assms(1) show ?thesis
    using get_field_numeral_fails[of rt _ kwargs]
    by (auto split: option.splits sum.splits)
next
  case False
  with assms show ?thesis
    by (auto split: option.splits sum.splits if_splits prod.splits)
qed

lemma canonical_flat_struct_differ:
  assumes "or_empty spec = []" "c = ''s'' \<or> c = ''r''" "or_empty spec' = []"
  shows "canonicalKey fn spec (Some c) \<noteq> canonicalKey fn' spec' (Some [])"
proof
  assume "canonicalKey fn spec (Some c) = canonicalKey fn' spec' (Some [])"
  from canonicalKey_conv_inj[OF assms(1) assms(3) this] assms(2) show False by auto
qed

lemma same_counts_step:
  assumes "same_counts kfL kfF" "or_empty spec = []" "c = ''s'' \<or> c = ''r''"
  shows "same_counts
           (kfL\<lparr>keys := ((keys kfL)(canonicalKey fn spec (Some c) := Suc (keys kfL (canonicalKey fn spec (Some c)))))
                          (canonicalKey fn spec (Some []) :=
                             Suc (((keys kfL)(canonicalKey fn spec (Some c) := Suc (keys kfL (canonicalKey fn spec (Some c)))))
                                   (canonicalKey fn spec (Some []))))\<rparr>)
           (kfF\<lparr>keys := (keys kfF)(canonicalKey fn spec (Some c) := Suc (keys kfF (canonicalKey fn spec (Some c))))\<rparr>)"
  unfolding same_counts_def
proof (intro allI impI)
  fix fn' c' assume c': "c' = ''s'' \<or> c' = ''r''"
  let ?k = "canonicalKey fn' None (Some c')"
  let ?c1 = "canonicalKey fn spec (Some c)"
  let ?c2 = "canonicalKey fn spec (Some [])"
  have ne: "?k \<noteq> ?c2"
    by (rule canonical_flat_struct_differ[OF _ c' assms(2)]) (simp add: or_empty_def)
  have c1: "?c1 = canonicalKey fn None (Some c)" by (rule canonicalKey_spec_empty[OF assms(2)])
  from assms(1) c' have a: "keys kfF ?k = keys kfL ?k" unfolding same_counts_def by blast
  from assms(1) assms(3) have "keys kfF (canonicalKey fn None (Some c)) = keys kfL (canonicalKey fn None (Some c))"
    unfolding same_counts_def by blast
  with c1 have b: "keys kfF ?c1 = keys kfL ?c1" by simp
  from ne a b show "keys (kfF\<lparr>keys := (keys kfF)(?c1 := Suc (keys kfF ?c1))\<rparr>) ?k
      = keys (kfL\<lparr>keys := ((keys kfL)(?c1 := Suc (keys kfL ?c1)))(?c2 := Suc (((keys kfL)(?c1 := Suc (keys kfL ?c1))) ?c2))\<rparr>) ?k"
    by simp
qed

lemma flatten_format_loop:
  assumes "keys_issued kfL flds" "same_counts kfL kfF"
    and "list_all (\<lambda>seg. flattenable_segment rt event seg \<and> fst (snd seg) \<noteq> None) segs"
    and "vformat_loop expand rt (CallMapping_getitem event) result auto segs err = Inr (text, auto')"
    and "\<And>a. expand [] a = Inr ([], a)"
  shows "\<exists>F C body. flattenEvent_loop rt event kfL flds calls segs err = Inr (F, C)
           \<and> (\<forall>k v. map_of flds k = Some v \<longrightarrow> map_of F k = Some v)
           \<and> text = result @ body
           \<and> (\<forall>s. flatFormat_loop (VDict F) kfF s segs err = Inr (s @ body))"
  using assms(1-4)
proof (induction segs arbitrary: kfL kfF flds calls result auto)
  case Nil
  then show ?case by (auto split: option.splits)
next
  case (Cons seg segs)
  obtain lit fn spec conv where seg: "seg = (lit, fn, spec, conv)" by (cases seg)
  from Cons.prems(3)
  have rest: "list_all (\<lambda>seg. flattenable_segment rt event seg \<and> fst (snd seg) \<noteq> None) segs"
    by simp
  from Cons.prems(3) seg obtain name where fn: "fn = Some name"
    and res: "call_free name \<or> called_key name" and sp: "or_empty spec = []"
    and cv: "conv = None \<or> conv = Some ''s'' \<or> conv = Some ''r''"
    and fa: "conv = None \<longrightarrow> formats_as_str rt event name"
    by (auto simp: flattenable_segment_def split: option.splits)
  let ?c = "if conv \<noteq> Some ''r'' then ''s'' else ''r''"
  let ?c1 = "canonicalKey (Some name) spec (Some ?c)"
  let ?c2 = "canonicalKey (Some name) spec (Some [])"
  let ?keys1 = "(keys kfL)(?c1 := Suc (keys kfL ?c1))"
  let ?k1 = "nthKey ?c1 (Suc (keys kfL ?c1))"
  let ?k2 = "nthKey ?c2 (Suc (?keys1 ?c2))"
  let ?callit = "endswith name ''()''"
  let ?name' = "if ?callit then take (length name - 2) name else name"
  let ?kfL2 = "kfL\<lparr>keys := ?keys1(?c2 := Suc (?keys1 ?c2))\<rparr>"
  let ?kfF2 = "kfF\<lparr>keys := (keys kfF)(?c1 := Suc (keys kfF ?c1))\<rparr>"
  have cs: "?c = ''s'' \<or> ?c = ''r''" by simp
  have e1: "ends_colon ?c1" and e2: "ends_colon ?c2" using sp by (simp_all add: canonicalKey_ends_colon)
  have c12: "?c1 \<noteq> ?c2" by (rule canonical_flat_struct_differ[OF sp cs sp])
  have k12: "?k1 \<noteq> ?k2" using nthKey_eq[OF e1 e2] c12 by blast
  have fresh1: "\<not> dict_contains flds ?k1"
    by (rule keys_issued_fresh[OF Cons.prems(1) e1]) simp
  have fresh2: "\<not> dict_contains flds ?k2"
    by (rule keys_issued_fresh[OF Cons.prems(1) e2]) (use c12 in simp)
  from vformat_loop_field[OF Cons.prems(4)[unfolded seg fn] sp assms(5)]
  obtain obj obj' t auto1 where
    gf: "get_field rt name (CallMapping_getitem event) = Inr obj"
    and cf: "convert_field obj conv = Inr obj'"
    and ff: "format_field rt obj' [] = Inr t"
    and live: "vformat_loop expand rt (CallMapping_getitem event) (result @ lit @ t) auto1 segs err
                 = Inr (text, auto')"
    by blast
  from gf resolve_agree[OF res, of rt event] obtain v0 where
    rv: "get_field rt ?name' (dict_getitem event) = Inr v0"
    and cl: "(if ?callit then py_call v0 else Inr v0) = Inr obj"
    by (auto split: sum.splits)
  from fa gf have fs: "conv = None \<Longrightarrow> py_format rt obj [] = py_str obj"
    by (simp add: formats_as_str_def)
  from convert_agree[OF cv fs cf ff] have cvf: "conversionFunction ?c obj = Inr (VStr t)" .
  let ?flds2 = "AList.update ?k2 obj (AList.update ?k1 (VStr t) flds)"
  let ?calls2 = "calls @ Resolved ?name' # (if ?callit then [Invoked ?name'] else [])"
  have step: "flattenEvent_loop rt event kfL flds calls (seg # segs) err
                = flattenEvent_loop rt event ?kfL2 ?flds2 ?calls2 segs err"
    unfolding seg fn
    by (subst flattenEvent_loop_fresh[OF fresh1]) (simp add: Let_def rv cl cvf)
  have inv2: "keys_issued ?kfL2 ?flds2" by (rule keys_issued_step[OF Cons.prems(1) e1 e2])
  have sc2: "same_counts ?kfL2 ?kfF2" by (rule same_counts_step[OF Cons.prems(2) sp cs])
  from Cons.IH[OF inv2 sc2 rest live, of ?calls2]
  obtain F C body where
    fl: "flattenEvent_loop rt event ?kfL2 ?flds2 ?calls2 segs err = Inr (F, C)"
    and ext: "\<forall>k v. map_of ?flds2 k = Some v \<longrightarrow> map_of F k = Some v"
    and tx: "text = (result @ lit @ t) @ body"
    and ffl: "\<forall>s. flatFormat_loop (VDict F) ?kfF2 s segs err = Inr (s @ body)"
    by blast
  have m1: "map_of ?flds2 ?k1 = Some (VStr t)"
    using k12 by (simp add: map_of_update_other map_of_update_same)
  from ext m1 have f1: "map_of F ?k1 = Some (VStr t)" by blast
  have ext0: "\<forall>k v. map_of flds k = Some v \<longrightarrow> map_of F k = Some v"
  proof (intro allI impI)
    fix k v assume kv: "map_of flds k = Some v"
    then have "dict_contains flds k" by (rule dict_contains_map_of)
    with fresh1 fresh2 have "k \<noteq> ?k1" "k \<noteq> ?k2" by auto
    with kv have "map_of ?flds2 k = Some v" by (simp add: map_of_update_other)
    with ext show "map_of F k = Some v" by blast
  qed
  from Cons.prems(2) cs
  have "keys kfF (canonicalKey (Some name) None (Some ?c)) = keys kfL (canonicalKey (Some name) None (Some ?c))"
    unfolding same_counts_def by blast
  with canonicalKey_spec_empty[OF sp, of "Some name" "Some ?c"]
  have cnt: "keys kfF ?c1 = keys kfL ?c1" by simp
  have fk: "flatKey kfF (Some name) spec (Some (or_s conv)) = (?k1, ?kfF2)"
    by (simp add: flatKey_count or_s_conv[OF cv] cnt)
  have fstep: "\<And>s. flatFormat_loop (VDict F) kfF s (seg # segs) err
                  = flatFormat_loop (VDict F) ?kfF2 (s @ lit @ t) segs err"
    unfolding seg fn by (simp add: fk dict_getitem_def f1)
  show ?case
  proof (intro exI[of _ F] exI[of _ C] exI[of _ "lit @ t @ body"] conjI)
    show "flattenEvent_loop rt event kfL flds calls (seg # segs) err = Inr (F, C)"
      using step fl by simp
    show "\<forall>k v. map_of flds k = Some v \<longrightarrow> map_of F k = Some v" by (rule ext0)
    show "text = result @ lit @ t @ body" using tx by simp
    show "\<forall>s. flatFormat_loop (VDict F) kfF s (seg # segs) err = Inr (s @ lit @ t @ body)"
      using fstep ffl by simp
  qed
qed




text \<open>
  Two more differences. A template that ends in literal text, or has no field at all,
  makes \<open>flattenEvent\<close> raise \<open>AttributeError\<close>: the parser's last tuple has
  \<open>None\<close> for a field name, live rendering skips the field of such a tuple
  (\<open>if field_name is not None\<close>), and \<open>flattenEvent\<close> calls \<open>endswith\<close> on it. And a
  call suffix after an attribute is honoured by \<open>flattenEvent\<close> only: live rendering
  looks for an attribute named \<open>f()\<close>.
\<close>

lemma parse_x_bang: "parse ''{x}!'' = ([([], Some ''x'', Some [], None), (''!'', None, None, None)], None)"
  by (simp add: eval_parse)

lemma flattenEvent_trailing_literal:
  "formatEvent example_runtime [(''log_format'', VStr ''{x}!''), (''x'', VInt 5)] = Inr ''5!''
   \<and> flattenEvent example_runtime [(''log_format'', VStr ''{x}!''), (''x'', VInt 5)]
       = Inl (AttributeError (quoted ''NoneType'' @ '' object has no attribute '' @ quoted ''endswith''))"
proof -
  have a: "formatEvent example_runtime [(''log_format'', VStr ''{x}!''), (''x'', VInt 5)] = Inr ''5!''"
    by (simp add: eval_live parse_x_bang parse_Nil get_field_x eval_flatten or_empty_def eval_str)
  have b: "flattenEvent example_runtime [(''log_format'', VStr ''{x}!''), (''x'', VInt 5)]
       = Inl (AttributeError (quoted ''NoneType'' @ '' object has no attribute '' @ quoted ''endswith''))"
    by (simp add: eval_flatten parse_x_bang eval_keys get_field_x eval_str)
  from a b show ?thesis by simp
qed

lemma parse_o_f_call: "parse ''{o.f()}'' = ([([], Some ''o.f()'', Some [], None)], None)"
  by (simp add: eval_parse)

lemma flattenEvent_dotted_call:
  "formatEvent_try example_runtime [(''log_format'', VStr ''{o.f()}''), (''o'', objectWithMethod)]
     = Inl (AttributeError (quoted ''C'' @ '' object has no attribute '' @ quoted ''f()''))
   \<and> flattenEvent example_runtime [(''log_format'', VStr ''{o.f()}''), (''o'', objectWithMethod)]
       = Inr [(''log_format'', VStr ''{o.f()}''), (''o'', objectWithMethod),
              (''log_flattened'', VDict [(''o.f()!s:'', VStr ''7''), (''o.f()!:'', VInt 7)])]
   \<and> flatFormat [(''log_format'', VStr ''{o.f()}''), (''o'', objectWithMethod),
              (''log_flattened'', VDict [(''o.f()!s:'', VStr ''7''), (''o.f()!:'', VInt 7)])]
       = Inr ''7''"
proof -
  have a: "formatEvent_try example_runtime [(''log_format'', VStr ''{o.f()}''), (''o'', objectWithMethod)]
     = Inl (AttributeError (quoted ''C'' @ '' object has no attribute '' @ quoted ''f()''))"
    by (simp add: eval_live parse_o_f_call eval_field eval_flatten objectWithMethod_def Let_def)
  have b: "flattenEvent example_runtime [(''log_format'', VStr ''{o.f()}''), (''o'', objectWithMethod)]
       = Inr [(''log_format'', VStr ''{o.f()}''), (''o'', objectWithMethod),
              (''log_flattened'', VDict [(''o.f()!s:'', VStr ''7''), (''o.f()!:'', VInt 7)])]"
    by (simp add: eval_flatten parse_o_f_call eval_keys eval_field objectWithMethod_def lambda7_def
        eval_str)
  have c: "flatFormat [(''log_format'', VStr ''{o.f()}''), (''o'', objectWithMethod),
              (''log_flattened'', VDict [(''o.f()!s:'', VStr ''7''), (''o.f()!:'', VInt 7)])]
       = Inr ''7''"
    by (simp add: flatFormat_def eval_flatten parse_o_f_call eval_keys)
  from a b c show ?thesis by simp
qed

text \<open>
  Under the conditions of the amended claim below, \<open>flattenEvent\<close> returns when every
  tuple of the parsed template has a field name.
\<close>

lemma flattenEvent_returns:
  assumes "map_of event ''log_format'' = Some (VStr T)"
    and "list_all (flattenable_segment rt event) (fst (parse T))"
    and "list_all (\<lambda>seg. fst (snd seg) \<noteq> None) (fst (parse T))"
    and "formatWithCall rt T event = Inr text"
  shows "\<exists>event'. flattenEvent rt event = Inr event'"
proof -
  let ?kw = "CallMapping_getitem event"
  let ?expand = "vformat_depth 2 rt ?kw"
  let ?segs = "fst (parse T)"
  have ex: "\<And>a. ?expand [] a = Inr ([], a)"
    by (simp add: numeral_2_eq_2 parse_Nil)
  from assms(4) obtain a where
    live: "vformat_loop ?expand rt ?kw [] (Some 0) ?segs (snd (parse T)) = Inr (text, a)"
    by (auto simp: formatWithCall_def vformat_def numeral_3_eq_3 numeral_2_eq_2 split: sum.splits)
  have k0: "keys_issued KeyFlattener_init []" by (simp add: keys_issued_def dict_contains_def)
  have s0: "same_counts KeyFlattener_init KeyFlattener_init" by (simp add: same_counts_def)
  from assms(2,3)
  have both: "list_all (\<lambda>seg. flattenable_segment rt event seg \<and> fst (snd seg) \<noteq> None) ?segs"
    by (simp add: list_all_iff)
  from flatten_format_loop[OF k0 s0 both live ex, of "[]"] obtain F C where
    fl: "flattenEvent_loop rt event KeyFlattener_init [] [] ?segs (snd (parse T)) = Inr (F, C)"
    by blast
  have c: "dict_contains event ''log_format''" using assms(1) by (rule dict_contains_map_of)
  with assms(1) fl show ?thesis
    by (auto simp: flattenEvent_def flattenEvent_calls_def dict_getitem_def parse_value_def
        split: prod.splits)
qed




section \<open>Rendering from \<open>log_flattened\<close>\<close>

text \<open>
  Claim C3 fails as stated. When \<open>flatFormat\<close> raises, here because the key \<open>x!s:\<close>
  is not in \<open>log_flattened\<close>, \<open>formatEvent\<close> returns the text of
  \<open>formatUnformattableEvent\<close>, which shows the \<open>repr\<close> of the whole event: two events
  that agree on \<open>log_format\<close> and \<open>log_flattened\<close> and differ in another field give
  different texts.
\<close>

theorem formatEvent_fallback_shows_other_fields:
  "map_of [(''log_format'', VStr ''{x}''), (''log_flattened'', VDict []), (''a'', VInt 1)] ''log_format''
     = map_of [(''log_format'', VStr ''{x}''), (''log_flattened'', VDict []), (''a'', VInt 2)] ''log_format''
   \<and> map_of [(''log_format'', VStr ''{x}''), (''log_flattened'', VDict []), (''a'', VInt 1)] ''log_flattened''
     = map_of [(''log_format'', VStr ''{x}''), (''log_flattened'', VDict []), (''a'', VInt 2)] ''log_flattened''
   \<and> formatEvent example_runtime [(''log_format'', VStr ''{x}''), (''log_flattened'', VDict []), (''a'', VInt 1)]
     = Inr (''Unable to format event {'log_format': '{x}', 'log_flattened': {}, 'a': 1}: '' @ quoted ''x!s:'')
   \<and> formatEvent example_runtime [(''log_format'', VStr ''{x}''), (''log_flattened'', VDict []), (''a'', VInt 2)]
     = Inr (''Unable to format event {'log_format': '{x}', 'log_flattened': {}, 'a': 2}: '' @ quoted ''x!s:'')
   \<and> formatEvent example_runtime [(''log_format'', VStr ''{x}''), (''log_flattened'', VDict []), (''a'', VInt 1)]
     \<noteq> formatEvent example_runtime [(''log_format'', VStr ''{x}''), (''log_flattened'', VDict []), (''a'', VInt 2)]"
proof -
  have p: "parse ''{x}'' = ([([], Some ''x'', Some [], None)], None)" by (simp add: eval_parse)
  have a: "formatEvent example_runtime [(''log_format'', VStr ''{x}''), (''log_flattened'', VDict []), (''a'', VInt 1)]
     = Inr (''Unable to format event {'log_format': '{x}', 'log_flattened': {}, 'a': 1}: '' @ quoted ''x!s:'')"
    by (simp add: formatEvent_def formatEvent_try_def flatFormat_def eval_flatten p eval_keys
        formatUnformattableEvent_def unableToFormat_def eval_str quoted_def Let_def)
  have b: "formatEvent example_runtime [(''log_format'', VStr ''{x}''), (''log_flattened'', VDict []), (''a'', VInt 2)]
     = Inr (''Unable to format event {'log_format': '{x}', 'log_flattened': {}, 'a': 2}: '' @ quoted ''x!s:'')"
    by (simp add: formatEvent_def formatEvent_try_def flatFormat_def eval_flatten p eval_keys
        formatUnformattableEvent_def unableToFormat_def eval_str quoted_def Let_def)
  from a b show ?thesis by simp
qed

text \<open>
  Claim C3, amended. Once \<open>log_flattened\<close> is present, the outcome of \<open>flatFormat\<close>
  depends only on the event's \<open>log_format\<close> and \<open>log_flattened\<close> entries, and whenever
  it is a text (every key looked up is in \<open>log_flattened\<close> and the values stored there
  have a \<open>str\<close>), \<open>formatEvent\<close> returns that text for any two events that agree on
  these two entries, in any runtime: no other field of the event is read or invoked.
\<close>

theorem formatEvent_flattened_depends_on_two_keys:
  assumes "map_of e1 ''log_format'' = map_of e2 ''log_format''"
    and "map_of e1 ''log_flattened'' = map_of e2 ''log_flattened''"
    and "dict_contains e1 ''log_flattened''"
  shows "flatFormat e1 = flatFormat e2
         \<and> (\<forall>text. flatFormat e1 = Inr text \<longrightarrow>
               formatEvent rt1 e1 = Inr text \<and> formatEvent rt2 e2 = Inr text)"
proof -
  have eq: "flatFormat e1 = flatFormat e2"
    unfolding flatFormat_def dict_getitem_def assms(1,2) by (rule refl)
  have c2: "dict_contains e2 ''log_flattened''" using assms(2,3) by (simp add: dict_contains_def)
  have "formatEvent_try rt1 e1 = flatFormat e1" "formatEvent_try rt2 e2 = flatFormat e2"
    using assms(3) c2 by (simp_all add: formatEvent_try_def)
  with eq show ?thesis by (simp add: formatEvent_def)
qed

text \<open>
  The amended claim at two events with the same \<open>log_format\<close> and \<open>log_flattened\<close>,
  other fields and another order: both render as \<open>5\<close>, the value stored when the event
  was flattened.
\<close>

theorem formatEvent_flattened_depends_on_two_keys_witness:
  "formatEvent example_runtime
     [(''log_format'', VStr ''{x}''), (''log_flattened'', VDict [(''x!s:'', VStr ''5'')]), (''x'', VInt 1)]
     = Inr ''5''
   \<and> formatEvent example_runtime
     [(''x'', VInt 2), (''log_flattened'', VDict [(''x!s:'', VStr ''5'')]), (''log_format'', VStr ''{x}''),
      (''other'', lambda7)]
     = Inr ''5''"
proof -
  let ?e1 = "[(''log_format'', VStr ''{x}''), (''log_flattened'', VDict [(''x!s:'', VStr ''5'')]), (''x'', VInt 1)]"
  let ?e2 = "[(''x'', VInt 2), (''log_flattened'', VDict [(''x!s:'', VStr ''5'')]), (''log_format'', VStr ''{x}''),
      (''other'', lambda7)]"
  have p: "parse ''{x}'' = ([([], Some ''x'', Some [], None)], None)" by (simp add: eval_parse)
  have f: "flatFormat ?e1 = Inr ''5''"
    by (simp add: flatFormat_def eval_flatten p eval_keys)
  have "map_of ?e1 ''log_format'' = map_of ?e2 ''log_format''"
    "map_of ?e1 ''log_flattened'' = map_of ?e2 ''log_flattened''"
    "dict_contains ?e1 ''log_flattened''"
    by (simp_all add: dict_contains_def)
  from formatEvent_flattened_depends_on_two_keys[OF this, of example_runtime example_runtime] f
  show ?thesis by simp
qed

section \<open>The classic log line\<close>

lemma indent_newlines_no_newline: "CHR 0x0A \<notin> set a \<Longrightarrow> indent_newlines a = a"
  by (induction a) (auto simp: indent_newlines_def)

text \<open>
  Claim C8. For an event whose formatted text \<open>eventText\<close> is not empty, and a time
  formatter that returns \<open>timeStamp\<close> for the event's \<open>log_time\<close>,
  \<open>formatEventAsClassicLogText\<close> returns exactly \<open>{timeStamp} [{system}] {eventText}\<close>
  followed by a newline, with every newline of \<open>eventText\<close> replaced by newline and
  tab. When \<open>log_system\<close> is set (\<open>event.get("log_system")\<close> is not \<open>None\<close>),
  \<open>system\<close> is its \<open>str\<close>, or \<open>UNFORMATTABLE\<close> when its \<open>str\<close> raises. Otherwise
  \<open>system\<close> is \<open>{namespace}#{levelName}\<close>: the namespace is \<open>log_namespace\<close> as
  \<open>str.format\<close> renders it (its \<open>str\<close>, for a text and for every value without a
  \<open>__format__\<close> of its own), \<open>-\<close> when the event has none, and the level name is
  the \<open>name\<close> of \<open>log_level\<close> rendered in the same way, \<open>-\<close> when no level is set.
\<close>

theorem formatEventAsClassicLogText_line:
  assumes "formatEvent rt event = Inr eventText" and "eventText \<noteq> []"
    and "formatTime' (dict_get event ''log_time'') = Inr timeStamp"
  shows
    "(dict_get event ''log_system'' \<noteq> VNone \<longrightarrow>
        formatEventAsClassicLogText rt event formatTime'
          = Inr (Some (timeStamp @ '' [''
                       @ (case py_str (dict_get event ''log_system'') of
                            Inr t \<Rightarrow> t | Inl e \<Rightarrow> ''UNFORMATTABLE'')
                       @ ''] '' @ indent_newlines eventText @ [CHR 0x0A])))
     \<and> (dict_get event ''log_system'' = VNone
        \<and> py_format rt (case map_of event ''log_namespace'' of None \<Rightarrow> VStr ''-'' | Some n \<Rightarrow> n) []
            = Inr namespace
        \<and> dict_get event ''log_level'' = VNone \<longrightarrow>
        formatEventAsClassicLogText rt event formatTime'
          = Inr (Some (timeStamp @ '' ['' @ namespace @ ''#'' @ ''-''
                       @ ''] '' @ indent_newlines eventText @ [CHR 0x0A])))
     \<and> (dict_get event ''log_system'' = VNone
        \<and> py_format rt (case map_of event ''log_namespace'' of None \<Rightarrow> VStr ''-'' | Some n \<Rightarrow> n) []
            = Inr namespace
        \<and> dict_get event ''log_level'' \<noteq> VNone
        \<and> py_getattr rt (dict_get event ''log_level'') ''name'' = Inr levelName
        \<and> py_format rt levelName [] = Inr level \<longrightarrow>
        formatEventAsClassicLogText rt event formatTime'
          = Inr (Some (timeStamp @ '' ['' @ namespace @ ''#'' @ level
                       @ ''] '' @ indent_newlines eventText @ [CHR 0x0A])))
     \<and> indent_newlines (a @ CHR 0x0A # b) = indent_newlines a @ [CHR 0x0A, CHR 0x09] @ indent_newlines b
     \<and> (CHR 0x0A \<notin> set a \<longrightarrow> indent_newlines a = a)
     \<and> (own_format v = None \<longrightarrow> py_format rt v [] = py_str v)"
proof (intro conjI impI)
  assume "dict_get event ''log_system'' \<noteq> VNone"
  then show "formatEventAsClassicLogText rt event formatTime'
          = Inr (Some (timeStamp @ '' [''
                       @ (case py_str (dict_get event ''log_system'') of
                            Inr t \<Rightarrow> t | Inl e \<Rightarrow> ''UNFORMATTABLE'')
                       @ ''] '' @ indent_newlines eventText @ [CHR 0x0A]))"
    using assms
    by (cases "dict_get event ''log_system''")
      (auto simp: formatEventAsClassicLogText_def classicSystem_def split: sum.splits)
next
  assume "dict_get event ''log_system'' = VNone
        \<and> py_format rt (case map_of event ''log_namespace'' of None \<Rightarrow> VStr ''-'' | Some n \<Rightarrow> n) []
            = Inr namespace
        \<and> dict_get event ''log_level'' = VNone"
  then show "formatEventAsClassicLogText rt event formatTime'
          = Inr (Some (timeStamp @ '' ['' @ namespace @ ''#'' @ ''-''
                       @ ''] '' @ indent_newlines eventText @ [CHR 0x0A]))"
    using assms by (simp add: formatEventAsClassicLogText_def classicSystem_def py_format_VStr)
next
  assume h: "dict_get event ''log_system'' = VNone
        \<and> py_format rt (case map_of event ''log_namespace'' of None \<Rightarrow> VStr ''-'' | Some n \<Rightarrow> n) []
            = Inr namespace
        \<and> dict_get event ''log_level'' \<noteq> VNone
        \<and> py_getattr rt (dict_get event ''log_level'') ''name'' = Inr levelName
        \<and> py_format rt levelName [] = Inr level"
  then have "(case dict_get event ''log_level'' of
                   VNone \<Rightarrow> Inr (VStr ''-'')
                 | level \<Rightarrow> py_getattr rt level ''name'') = Inr levelName"
    by (cases "dict_get event ''log_level''") auto
  with h show "formatEventAsClassicLogText rt event formatTime'
          = Inr (Some (timeStamp @ '' ['' @ namespace @ ''#'' @ level
                       @ ''] '' @ indent_newlines eventText @ [CHR 0x0A]))"
    using assms by (simp add: formatEventAsClassicLogText_def classicSystem_def py_format_VStr)
next
  show "indent_newlines (a @ CHR 0x0A # b) = indent_newlines a @ [CHR 0x0A, CHR 0x09] @ indent_newlines b"
    by (simp add: indent_newlines_def)
next
  assume "CHR 0x0A \<notin> set a"
  then show "indent_newlines a = a" by (rule indent_newlines_no_newline)
next
  assume "own_format v = None"
  then show "py_format rt v [] = py_str v" by (simp add: py_format_def)
qed

text \<open>
  The claim at the event with namespace \<open>ns\<close> and the level named \<open>info\<close>, at an
  event with neither, at one with a \<open>log_system\<close> and a message of two lines, and at
  one whose \<open>log_system\<close> has a \<open>str\<close> that raises. The default time formatter gives
  \<open>-\<close> for an event without \<open>log_time\<close>.
\<close>

lemma parse_hello: "parse ''Hello!'' = ([(''Hello!'', None, None, None)], None)"
  by (simp add: eval_parse)

lemma parse_two_lines:
  "parse (''one'' @ [CHR 0x0A] @ ''two'') = ([(''one'' @ [CHR 0x0A] @ ''two'', None, None, None)], None)"
  by (simp add: eval_parse)

theorem formatEventAsClassicLogText_line_witness:
  "formatEventAsClassicLogText example_runtime
     [(''log_format'', VStr ''Hello!''), (''log_namespace'', VStr ''ns''),
      (''log_level'', levelNamed ''info'')] (formatTime_default example_runtime)
     = Inr (Some (''- [ns#info] Hello!'' @ [CHR 0x0A]))
   \<and> formatEventAsClassicLogText example_runtime
     [(''log_format'', VStr ''Hello!'')] (formatTime_default example_runtime)
     = Inr (Some (''- [-#-] Hello!'' @ [CHR 0x0A]))
   \<and> formatEventAsClassicLogText example_runtime
     [(''log_format'', VStr (''one'' @ [CHR 0x0A] @ ''two'')), (''log_system'', VStr ''my_system'')]
     (formatTime_default example_runtime)
     = Inr (Some (''- [my_system] one'' @ [CHR 0x0A, CHR 0x09] @ ''two'' @ [CHR 0x0A]))
   \<and> formatEventAsClassicLogText example_runtime
     [(''log_format'', VStr ''Hello!''),
      (''log_system'', VObj ''Broken'' (Inl (ValueError ''boom'')) (Inr ''<Broken>'') [] None None)]
     (formatTime_default example_runtime)
     = Inr (Some (''- [UNFORMATTABLE] Hello!'' @ [CHR 0x0A]))"
proof -
  let ?e1 = "[(''log_format'', VStr ''Hello!''), (''log_namespace'', VStr ''ns''),
      (''log_level'', levelNamed ''info'')]"
  let ?e2 = "[(''log_format'', VStr ''Hello!'')]"
  let ?e3 = "[(''log_format'', VStr (''one'' @ [CHR 0x0A] @ ''two'')), (''log_system'', VStr ''my_system'')]"
  let ?e4 = "[(''log_format'', VStr ''Hello!''),
      (''log_system'', VObj ''Broken'' (Inl (ValueError ''boom'')) (Inr ''<Broken>'') [] None None)]"
  have t: "formatTime_default example_runtime VNone = Inr ''-''"
    by (simp add: formatTime_default_def formatTime_def)
  have f1: "formatEvent example_runtime ?e1 = Inr ''Hello!''"
    by (simp add: eval_live parse_hello eval_flatten)
  have f2: "formatEvent example_runtime ?e2 = Inr ''Hello!''"
    by (simp add: eval_live parse_hello eval_flatten)
  have f3: "formatEvent example_runtime ?e3 = Inr (''one'' @ [CHR 0x0A] @ ''two'')"
    using parse_two_lines by (simp add: eval_live eval_flatten)
  have f4: "formatEvent example_runtime ?e4 = Inr ''Hello!''"
    by (simp add: eval_live parse_hello eval_flatten)
  note th = formatEventAsClassicLogText_line
    [where rt = example_runtime and formatTime' = "formatTime_default example_runtime"
       and timeStamp = "''-''"]
  have r1: "formatEventAsClassicLogText example_runtime ?e1 (formatTime_default example_runtime)
     = Inr (Some (''- [ns#info] Hello!'' @ [CHR 0x0A]))"
    using th[where event = "?e1" and eventText = "''Hello!''" and namespace = "''ns''"
        and levelName = "VStr ''info''" and level = "''info''"] f1
    by (simp add: t dict_get_def levelNamed_def indent_newlines_def py_format_VStr)
  have r2: "formatEventAsClassicLogText example_runtime ?e2 (formatTime_default example_runtime)
     = Inr (Some (''- [-#-] Hello!'' @ [CHR 0x0A]))"
    using th[where event = "?e2" and eventText = "''Hello!''" and namespace = "''-''"] f2
    by (simp add: t dict_get_def indent_newlines_def py_format_VStr)
  have r3: "formatEventAsClassicLogText example_runtime ?e3 (formatTime_default example_runtime)
     = Inr (Some (''- [my_system] one'' @ [CHR 0x0A, CHR 0x09] @ ''two'' @ [CHR 0x0A]))"
    using th[where event = "?e3" and eventText = "''one'' @ [CHR 0x0A] @ ''two''"] f3
    by (simp add: t dict_get_def indent_newlines_def)
  have r4: "formatEventAsClassicLogText example_runtime ?e4 (formatTime_default example_runtime)
     = Inr (Some (''- [UNFORMATTABLE] Hello!'' @ [CHR 0x0A]))"
    using th[where event = "?e4" and eventText = "''Hello!''"] f4
    by (simp add: t dict_get_def indent_newlines_def)
  from r1 r2 r3 r4 show ?thesis by simp
qed

end
